theory Spec2Isabelle
  imports Main
begin

section \<open>The ECR tagger of \<^verbatim>\<open>ecr/tag.go\<close>\<close>

text \<open>
  \<^verbatim>\<open>tag.go\<close> is a client of three collaborators that live outside the file: the ARN
  parser \<^verbatim>\<open>NameAccountRegionFromARN\<close> of the same package, the AWS SDK's ECR client, and
  the metrics sink \<^verbatim>\<open>stats.Stats\<close>. The parser and the SDK client are parameters of the
  model (any parser, any remote behaviour); every effect the code has on them is recorded,
  in program order, in a trace.
\<close>

subsection \<open>Errors, pointers and panics\<close>

text \<open>
  \<^verbatim>\<open>errors.New(msg)\<close> and \<^verbatim>\<open>errors.Wrap(err, msg)\<close> of \<^verbatim>\<open>github.com/pkg/errors\<close>. The errors
  of the parser and of the SDK are values of the same type. A \<^verbatim>\<open>nil\<close> error is \<open>None\<close>.
\<close>

datatype error = New string | Wrap error string

text \<open>A Go \<^verbatim>\<open>*string\<close> is a \<open>string option\<close>; \<^verbatim>\<open>aws.String\<close>, \<^verbatim>\<open>aws.StringValue\<close> and
  \<^verbatim>\<open>aws.StringValueSlice\<close> are the SDK's conversions (\<^verbatim>\<open>nil\<close> reads as the empty string).\<close>

definition aws_String :: "string \<Rightarrow> string option" where
  "aws_String v = Some v"

definition aws_StringValue :: "string option \<Rightarrow> string" where
  "aws_StringValue p = (case p of None \<Rightarrow> [] | Some v \<Rightarrow> v)"

definition aws_StringValueSlice :: "string option list \<Rightarrow> string list" where
  "aws_StringValueSlice src = map aws_StringValue src"

text \<open>A run-time panic of Go: indexing a slice of length \<open>n\<close> at \<open>i \<ge> n\<close>.\<close>

datatype panic = IndexOutOfRange nat nat

datatype 'a outcome = Returned 'a | Panicked panic

subsection \<open>The SDK's request and response types\<close>

text \<open>
  Only the fields \<^verbatim>\<open>tag.go\<close> reads or writes. Fields are in the SDK's alphabetical order.
  The elements of the response slices (\<^verbatim>\<open>[]*Image\<close>, \<^verbatim>\<open>[]*ImageDetail\<close>) and \<^verbatim>\<open>Image.ImageId\<close>
  are taken to be non-nil, as the service returns them.
\<close>

datatype ImageIdentifier =
  ImageIdentifier (ImageDigest: "string option") (ImageTag: "string option")

datatype Image =
  Image (ImageId: ImageIdentifier) (ImageManifest: "string option")

datatype ImageDetail =
  ImageDetail (ImageTags: "string option list")

text \<open>\<open>ImageIds\<close>, \<open>RegistryId\<close>, \<open>RepositoryName\<close>.\<close>

datatype BatchGetImageInput =
  BatchGetImageInput "ImageIdentifier list" "string option" "string option"

datatype BatchDeleteImageInput =
  BatchDeleteImageInput "ImageIdentifier list" "string option" "string option"

datatype DescribeImagesInput =
  DescribeImagesInput "ImageIdentifier list" "string option" "string option"

text \<open>\<open>ImageManifest\<close>, \<open>ImageTag\<close>, \<open>RegistryId\<close>, \<open>RepositoryName\<close>.\<close>

datatype PutImageInput =
  PutImageInput "string option" "string option" "string option" "string option"

subsection \<open>The remote registry and the trace of effects\<close>

text \<open>
  The SDK client, over a registry state \<open>'w\<close> that the model never inspects. Each call
  returns an error or a response (the code discards the responses of \<^verbatim>\<open>PutImage\<close> and
  \<^verbatim>\<open>BatchDeleteImage\<close>) and the registry afterwards.
\<close>

record 'w ECR =
  BatchGetImage :: "BatchGetImageInput \<Rightarrow> 'w \<Rightarrow> (error + Image list) \<times> 'w"
  PutImage :: "PutImageInput \<Rightarrow> 'w \<Rightarrow> error option \<times> 'w"
  BatchDeleteImage :: "BatchDeleteImageInput \<Rightarrow> 'w \<Rightarrow> error option \<times> 'w"
  DescribeImages :: "DescribeImagesInput \<Rightarrow> 'w \<Rightarrow> (error + ImageDetail list) \<times> 'w"

text \<open>
  One event for each remote call (with what the remote answered), each \<^verbatim>\<open>IncCount\<close> on the
  metrics sink, and each \<^verbatim>\<open>fmt.Printf\<close>.
\<close>

datatype event =
  EvBatchGetImage BatchGetImageInput "error + Image list"
| EvPutImage PutImageInput "error option"
| EvBatchDeleteImage BatchDeleteImageInput "error option"
| EvDescribeImages DescribeImagesInput "error + ImageDetail list"
| EvIncCount string
| EvPrintf string

record 'w sys =
  remote :: 'w
  trace :: "event list"

definition emit :: "event \<Rightarrow> 'w sys \<Rightarrow> 'w sys" where
  "emit ev s = s\<lparr>trace := trace s @ [ev]\<rparr>"

definition call_BatchGetImage ::
  "'w ECR \<Rightarrow> BatchGetImageInput \<Rightarrow> 'w sys \<Rightarrow> (error + Image list) \<times> 'w sys" where
  "call_BatchGetImage ecrClient req s =
     (case BatchGetImage ecrClient req (remote s) of
        (res, w) \<Rightarrow> (res, emit (EvBatchGetImage req res) (s\<lparr>remote := w\<rparr>)))"

definition call_PutImage ::
  "'w ECR \<Rightarrow> PutImageInput \<Rightarrow> 'w sys \<Rightarrow> error option \<times> 'w sys" where
  "call_PutImage ecrClient req s =
     (case PutImage ecrClient req (remote s) of
        (res, w) \<Rightarrow> (res, emit (EvPutImage req res) (s\<lparr>remote := w\<rparr>)))"

definition call_BatchDeleteImage ::
  "'w ECR \<Rightarrow> BatchDeleteImageInput \<Rightarrow> 'w sys \<Rightarrow> error option \<times> 'w sys" where
  "call_BatchDeleteImage ecrClient req s =
     (case BatchDeleteImage ecrClient req (remote s) of
        (res, w) \<Rightarrow> (res, emit (EvBatchDeleteImage req res) (s\<lparr>remote := w\<rparr>)))"

definition call_DescribeImages ::
  "'w ECR \<Rightarrow> DescribeImagesInput \<Rightarrow> 'w sys \<Rightarrow> (error + ImageDetail list) \<times> 'w sys" where
  "call_DescribeImages ecrClient req s =
     (case DescribeImages ecrClient req (remote s) of
        (res, w) \<Rightarrow> (res, emit (EvDescribeImages req res) (s\<lparr>remote := w\<rparr>)))"

text \<open>\<^verbatim>\<open>t.stats.IncCount(name)\<close>.\<close>

definition IncCount :: "string \<Rightarrow> 'w sys \<Rightarrow> 'w sys" where
  "IncCount name s = emit (EvIncCount name) s"

text \<open>\<^verbatim>\<open>fmt.Printf("Tags are %s \n", tags)\<close>: \<^verbatim>\<open>%s\<close> prints a slice of strings in brackets,
  its elements separated by one space.\<close>

fun join_space :: "string list \<Rightarrow> string" where
  "join_space [] = []"
| "join_space [x] = x"
| "join_space (x # y # ys) = x @ '' '' @ join_space (y # ys)"

definition tags_line :: "string list \<Rightarrow> string" where
  "tags_line tags = ''Tags are ['' @ join_space tags @ ''] '' @ [CHR 0x0A]"

definition Printf_tags :: "string list \<Rightarrow> 'w sys \<Rightarrow> 'w sys" where
  "Printf_tags tags s = emit (EvPrintf (tags_line tags)) s"

subsection \<open>The tagger\<close>

text \<open>
  What a \<^verbatim>\<open>tagger\<close> depends on: the package's ARN parser, which returns
  \<open>(repoName, accountID, region)\<close> or an error, and \<^verbatim>\<open>ecr.New(t.sess, ...WithRegion(region))\<close>,
  the client for a region.
\<close>

record 'w tagger =
  NameAccountRegionFromARN :: "string \<Rightarrow> error + (string \<times> string \<times> string)"
  ecr_New :: "string \<Rightarrow> 'w ECR"

text \<open>The names of the failure counters: \<^verbatim>\<open>fmt.Sprintf("ecr.<call>.%s.failure", repoName)\<close>.\<close>

definition failure_counter :: "string \<Rightarrow> string \<Rightarrow> string" where
  "failure_counter call repoName = ''ecr.'' @ call @ ''.'' @ repoName @ ''.failure''"

text \<open>The inner loop of \<^verbatim>\<open>Add\<close>, \<^verbatim>\<open>for _, img := range getRes.Images\<close> (lines 66 to 81).\<close>

fun Add_images ::
  "'w ECR \<Rightarrow> string \<Rightarrow> string \<Rightarrow> string \<Rightarrow> Image list \<Rightarrow> 'w sys \<Rightarrow> error option \<times> 'w sys" where
  "Add_images ecrClient repoName accountID tag [] s = (None, s)"
| "Add_images ecrClient repoName accountID tag (img # imgs) s =
     (let putReq = PutImageInput (ImageManifest img) (aws_String tag)
                     (aws_String accountID) (aws_String repoName)
      in case call_PutImage ecrClient putReq s of
           (Some err, s1) \<Rightarrow>
             (Some (Wrap err (''failed to add tag '' @ tag @ '' to image manifest ''
                               @ aws_StringValue (ImageManifest img))),
              IncCount (failure_counter ''putimage'' repoName) s1)
         | (None, s1) \<Rightarrow> Add_images ecrClient repoName accountID tag imgs s1)"

text \<open>The outer loop of \<^verbatim>\<open>Add\<close>, \<^verbatim>\<open>for _, tag := range tags\<close> (lines 48 to 82). The
  second list is what is left of \<open>tags\<close>; the first is \<open>tags\<close> itself, which each
  iteration prints.\<close>

fun Add_tags ::
  "'w ECR \<Rightarrow> string \<Rightarrow> string \<Rightarrow> string \<Rightarrow> string list \<Rightarrow> string list \<Rightarrow> 'w sys
     \<Rightarrow> error option \<times> 'w sys" where
  "Add_tags ecrClient repoName accountID version tags [] s = (None, s)"
| "Add_tags ecrClient repoName accountID version tags (tag # rest) s =
     (let s0 = Printf_tags tags s;
          getReq = BatchGetImageInput [ImageIdentifier None (aws_String version)]
                     (aws_String accountID) (aws_String repoName)
      in case call_BatchGetImage ecrClient getReq s0 of
           (Inl err, s1) \<Rightarrow>
             (Some (Wrap err (''failed to get images of tag '' @ tag)),
              IncCount (failure_counter ''batchget'' repoName) s1)
         | (Inr images, s1) \<Rightarrow>
             (case Add_images ecrClient repoName accountID tag images s1 of
                (Some e, s2) \<Rightarrow> (Some e, s2)
              | (None, s2) \<Rightarrow> Add_tags ecrClient repoName accountID version tags rest s2))"

definition Add ::
  "'w tagger \<Rightarrow> string \<Rightarrow> string \<Rightarrow> string list \<Rightarrow> 'w sys \<Rightarrow> error option \<times> 'w sys" where
  "Add t ecrARN version tags s =
     (case NameAccountRegionFromARN t ecrARN of
        Inl err \<Rightarrow> (Some (Wrap err ''failed to read ECR repository ARN''), s)
      | Inr (repoName, accountID, region) \<Rightarrow>
          Add_tags (ecr_New t region) repoName accountID version tags tags s)"

text \<open>The inner loop of \<^verbatim>\<open>Remove\<close> (lines 111 to 131).\<close>

fun Remove_images ::
  "'w ECR \<Rightarrow> string \<Rightarrow> string \<Rightarrow> string \<Rightarrow> Image list \<Rightarrow> 'w sys \<Rightarrow> error option \<times> 'w sys" where
  "Remove_images ecrClient repoName accountID tag [] s = (None, s)"
| "Remove_images ecrClient repoName accountID tag (img # imgs) s =
     (let delReq = BatchDeleteImageInput
                     [ImageIdentifier (ImageDigest (ImageId img)) (aws_String tag)]
                     (aws_String accountID) (aws_String repoName)
      in case call_BatchDeleteImage ecrClient delReq s of
           (Some err, s1) \<Rightarrow>
             (Some (Wrap err (''failed to perform batch delete image by tag '' @ tag
                               @ '' and digest '' @ aws_StringValue (ImageDigest (ImageId img)))),
              IncCount (failure_counter ''batchdelete'' repoName) s1)
         | (None, s1) \<Rightarrow> Remove_images ecrClient repoName accountID tag imgs s1)"

text \<open>The outer loop of \<^verbatim>\<open>Remove\<close> (lines 94 to 132).\<close>

fun Remove_tags ::
  "'w ECR \<Rightarrow> string \<Rightarrow> string \<Rightarrow> string list \<Rightarrow> 'w sys \<Rightarrow> error option \<times> 'w sys" where
  "Remove_tags ecrClient repoName accountID [] s = (None, s)"
| "Remove_tags ecrClient repoName accountID (tag # rest) s =
     (let getReq = BatchGetImageInput [ImageIdentifier None (aws_String tag)]
                     (aws_String accountID) (aws_String repoName)
      in case call_BatchGetImage ecrClient getReq s of
           (Inl err, s1) \<Rightarrow>
             (Some (Wrap err (''failed to get images of tag '' @ tag)),
              IncCount (failure_counter ''batchget'' repoName) s1)
         | (Inr images, s1) \<Rightarrow>
             (case Remove_images ecrClient repoName accountID tag images s1 of
                (Some e, s2) \<Rightarrow> (Some e, s2)
              | (None, s2) \<Rightarrow> Remove_tags ecrClient repoName accountID rest s2))"

definition Remove ::
  "'w tagger \<Rightarrow> string \<Rightarrow> string list \<Rightarrow> 'w sys \<Rightarrow> error option \<times> 'w sys" where
  "Remove t ecrARN tags s =
     (case NameAccountRegionFromARN t ecrARN of
        Inl err \<Rightarrow> (Some (Wrap err ''failed to read ECR repository ARN''), s)
      | Inr (repoName, accountID, region) \<Rightarrow>
          Remove_tags (ecr_New t region) repoName accountID tags s)"

text \<open>\<^verbatim>\<open>Get\<close> returns \<^verbatim>\<open>(nil, err)\<close>, here \<open>Inl err\<close>, or \<^verbatim>\<open>(tags, nil)\<close>, here \<open>Inr tags\<close>;
  line 164 reads \<^verbatim>\<open>getRes.ImageDetails[0]\<close> without a check of the length.\<close>

definition Get ::
  "'w tagger \<Rightarrow> string \<Rightarrow> string \<Rightarrow> 'w sys \<Rightarrow> (error + string list) outcome \<times> 'w sys" where
  "Get t ecrARN version s =
     (case NameAccountRegionFromARN t ecrARN of
        Inl err \<Rightarrow> (Returned (Inl (Wrap err ''failed to read ECR repository ARN'')), s)
      | Inr (repoName, accountID, region) \<Rightarrow>
          (let getReq = DescribeImagesInput [ImageIdentifier None (aws_String version)]
                          (aws_String accountID) (aws_String repoName)
           in case call_DescribeImages (ecr_New t region) getReq s of
                (Inl err, s1) \<Rightarrow>
                  (Returned (Inl (Wrap err (''failed to get images of tag '' @ version))),
                   IncCount (failure_counter ''descimg'' repoName) s1)
              | (Inr details, s1) \<Rightarrow>
                  if length details > 1
                  then (Returned (Inl (New
                          ''More than one image with version tag was found ... bad state!'')), s1)
                  else (case details of
                          [] \<Rightarrow> (Panicked (IndexOutOfRange 0 0), s1)
                        | d # _ \<Rightarrow> (Returned (Inr (aws_StringValueSlice (ImageTags d))), s1))))"

subsection \<open>An in-memory registry\<close>

text \<open>
  A stand-in for the remote service, used to run the tagger on concrete inputs. The registry
  is a list of images \<open>(digest, manifest, tags)\<close> and a budget: the number of remote calls that
  still succeed. A call made with budget \<open>0\<close> fails and changes nothing.
\<close>

type_synonym registry = "nat \<times> (string \<times> string \<times> string list) list"

definition mem_error :: error where
  "mem_error = New ''RequestError: send request failed''"

fun carries :: "string option \<Rightarrow> string \<times> string \<times> string list \<Rightarrow> bool" where
  "carries tag (d, m, ts) = (tag \<in> set (map Some ts))"

fun mem_images :: "ImageIdentifier list \<Rightarrow> (string \<times> string \<times> string list) list \<Rightarrow> Image list" where
  "mem_images [] entries = []"
| "mem_images (i # ids) entries =
     map (\<lambda>(d, m, ts). Image (ImageIdentifier (Some d) (ImageTag i)) (Some m))
       (filter (carries (ImageTag i)) entries) @ mem_images ids entries"

fun mem_details :: "ImageIdentifier list \<Rightarrow> (string \<times> string \<times> string list) list \<Rightarrow> ImageDetail list" where
  "mem_details [] entries = []"
| "mem_details (i # ids) entries =
     map (\<lambda>(d, m, ts). ImageDetail (map Some ts))
       (filter (carries (ImageTag i)) entries) @ mem_details ids entries"

fun mem_put :: "string option \<Rightarrow> string option \<Rightarrow> string \<times> string \<times> string list
                  \<Rightarrow> string \<times> string \<times> string list" where
  "mem_put manifest tag (d, m, ts) =
     (if manifest = Some m \<and> tag \<notin> set (map Some ts)
      then (d, m, ts @ [aws_StringValue tag]) else (d, m, ts))"

fun mem_untag :: "ImageIdentifier \<Rightarrow> string \<times> string \<times> string list
                  \<Rightarrow> string \<times> string \<times> string list" where
  "mem_untag i (d, m, ts) =
     (if ImageDigest i = Some d then (d, m, filter (\<lambda>t. Some t \<noteq> ImageTag i) ts)
      else (d, m, ts))"

fun mem_BatchGetImage :: "BatchGetImageInput \<Rightarrow> registry \<Rightarrow> (error + Image list) \<times> registry" where
  "mem_BatchGetImage (BatchGetImageInput ids registryId repo) (budget, entries) =
     (if budget = 0 then (Inl mem_error, (budget, entries))
      else (Inr (mem_images ids entries), (budget - 1, entries)))"

fun mem_PutImage :: "PutImageInput \<Rightarrow> registry \<Rightarrow> error option \<times> registry" where
  "mem_PutImage (PutImageInput manifest tag registryId repo) (budget, entries) =
     (if budget = 0 then (Some mem_error, (budget, entries))
      else (None, (budget - 1, map (mem_put manifest tag) entries)))"

fun mem_BatchDeleteImage :: "BatchDeleteImageInput \<Rightarrow> registry \<Rightarrow> error option \<times> registry" where
  "mem_BatchDeleteImage (BatchDeleteImageInput ids registryId repo) (budget, entries) =
     (if budget = 0 then (Some mem_error, (budget, entries))
      else (None, (budget - 1, fold (\<lambda>i. map (mem_untag i)) ids entries)))"

fun mem_DescribeImages :: "DescribeImagesInput \<Rightarrow> registry \<Rightarrow> (error + ImageDetail list) \<times> registry" where
  "mem_DescribeImages (DescribeImagesInput ids registryId repo) (budget, entries) =
     (if budget = 0 then (Inl mem_error, (budget, entries))
      else (Inr (mem_details ids entries), (budget - 1, entries)))"

definition mem_ECR :: "registry ECR" where
  "mem_ECR = \<lparr>BatchGetImage = mem_BatchGetImage, PutImage = mem_PutImage,
              BatchDeleteImage = mem_BatchDeleteImage, DescribeImages = mem_DescribeImages\<rparr>"

text \<open>A parser for the runs below, in the place of \<^verbatim>\<open>NameAccountRegionFromARN\<close> (whose source
  is not part of \<^verbatim>\<open>tag.go\<close>): it accepts references of the form \<open>ecr:<repoName>\<close>, in account
  \<open>123\<close> and region \<open>r1\<close>, and rejects every other string.\<close>

definition mem_parse :: "string \<Rightarrow> error + (string \<times> string \<times> string)" where
  "mem_parse ref =
     (if take 4 ref = ''ecr:'' then Inr (drop 4 ref, ''123'', ''r1'')
      else Inl (New ''not a valid repository ARN''))"

definition mem_tagger :: "registry tagger" where
  "mem_tagger = \<lparr>NameAccountRegionFromARN = mem_parse, ecr_New = (\<lambda>region. mem_ECR)\<rparr>"

definition start :: "nat \<Rightarrow> (string \<times> string \<times> string list) list \<Rightarrow> registry sys" where
  "start budget entries = \<lparr>remote = (budget, entries), trace = []\<rparr>"

subsection \<open>What a run is expected to leave in the trace\<close>

text \<open>
  The requests, named as the specification names them: the lookup of the images that carry
  a tag, the put that attaches a tag to the manifest of an image, and the delete keyed by
  a tag and the digest of an image.
\<close>

definition lookup_by_tag :: "string \<Rightarrow> string \<Rightarrow> string \<Rightarrow> BatchGetImageInput" where
  "lookup_by_tag repoName accountID tag =
     BatchGetImageInput [ImageIdentifier None (Some tag)] (Some accountID) (Some repoName)"

definition put_tag :: "string \<Rightarrow> string \<Rightarrow> string \<Rightarrow> Image \<Rightarrow> PutImageInput" where
  "put_tag repoName accountID tag img =
     PutImageInput (ImageManifest img) (Some tag) (Some accountID) (Some repoName)"

definition delete_tag_digest :: "string \<Rightarrow> string \<Rightarrow> string \<Rightarrow> Image \<Rightarrow> BatchDeleteImageInput" where
  "delete_tag_digest repoName accountID tag img =
     BatchDeleteImageInput [ImageIdentifier (ImageDigest (ImageId img)) (Some tag)]
       (Some accountID) (Some repoName)"

text \<open>One successful put of \<open>tag\<close>, or one successful delete of \<open>tag\<close>, per image, in the
  order of the images.\<close>

definition puts :: "string \<Rightarrow> string \<Rightarrow> string \<Rightarrow> Image list \<Rightarrow> event list" where
  "puts repoName accountID tag images =
     map (\<lambda>img. EvPutImage (put_tag repoName accountID tag img) None) images"

definition deletes :: "string \<Rightarrow> string \<Rightarrow> string \<Rightarrow> Image list \<Rightarrow> event list" where
  "deletes repoName accountID tag images =
     map (\<lambda>img. EvBatchDeleteImage (delete_tag_digest repoName accountID tag img) None) images"

text \<open>The events of one completed iteration of the tag loop, when the lookup answered
  \<open>images\<close>: for \<open>Add\<close> the printed line, the lookup of \<open>version\<close> and the puts of \<open>tag\<close>; for
  \<open>Remove\<close> the lookup of \<open>tag\<close> and the deletes of \<open>tag\<close>.\<close>

definition Add_tag_events ::
  "string \<Rightarrow> string \<Rightarrow> string \<Rightarrow> string list \<Rightarrow> string \<Rightarrow> Image list \<Rightarrow> event list" where
  "Add_tag_events repoName accountID version tags tag images =
     EvPrintf (tags_line tags)
     # EvBatchGetImage (lookup_by_tag repoName accountID version) (Inr images)
     # puts repoName accountID tag images"

definition Remove_tag_events ::
  "string \<Rightarrow> string \<Rightarrow> string \<Rightarrow> Image list \<Rightarrow> event list" where
  "Remove_tag_events repoName accountID tag images =
     EvBatchGetImage (lookup_by_tag repoName accountID tag) (Inr images)
     # deletes repoName accountID tag images"

text \<open>
  Where an iteration can fail: at the lookup, with the remote's error; or, the lookup having
  answered \<open>images\<close>, at the call for the image at index \<open>j\<close>, with the remote's error.
\<close>

datatype failure_point = LookupFailed error | ImageFailed "Image list" nat error

fun in_range :: "failure_point \<Rightarrow> bool" where
  "in_range (LookupFailed err) = True"
| "in_range (ImageFailed images j err) = (j < length images)"

text \<open>The events of an iteration that fails at that point, and the error then expected.\<close>

fun Add_failed_events ::
  "string \<Rightarrow> string \<Rightarrow> string \<Rightarrow> string list \<Rightarrow> string \<Rightarrow> failure_point \<Rightarrow> event list" where
  "Add_failed_events repoName accountID version tags tag (LookupFailed err) =
     [EvPrintf (tags_line tags),
      EvBatchGetImage (lookup_by_tag repoName accountID version) (Inl err),
      EvIncCount (''ecr.batchget.'' @ repoName @ ''.failure'')]"
| "Add_failed_events repoName accountID version tags tag (ImageFailed images j err) =
     EvPrintf (tags_line tags)
     # EvBatchGetImage (lookup_by_tag repoName accountID version) (Inr images)
     # puts repoName accountID tag (take j images)
     @ [EvPutImage (put_tag repoName accountID tag (images ! j)) (Some err),
        EvIncCount (''ecr.putimage.'' @ repoName @ ''.failure'')]"

fun Add_failed_error :: "string \<Rightarrow> failure_point \<Rightarrow> error" where
  "Add_failed_error tag (LookupFailed err) = Wrap err (''failed to get images of tag '' @ tag)"
| "Add_failed_error tag (ImageFailed images j err) =
     Wrap err (''failed to add tag '' @ tag @ '' to image manifest ''
               @ aws_StringValue (ImageManifest (images ! j)))"

fun Remove_failed_events ::
  "string \<Rightarrow> string \<Rightarrow> string \<Rightarrow> failure_point \<Rightarrow> event list" where
  "Remove_failed_events repoName accountID tag (LookupFailed err) =
     [EvBatchGetImage (lookup_by_tag repoName accountID tag) (Inl err),
      EvIncCount (''ecr.batchget.'' @ repoName @ ''.failure'')]"
| "Remove_failed_events repoName accountID tag (ImageFailed images j err) =
     EvBatchGetImage (lookup_by_tag repoName accountID tag) (Inr images)
     # deletes repoName accountID tag (take j images)
     @ [EvBatchDeleteImage (delete_tag_digest repoName accountID tag (images ! j)) (Some err),
        EvIncCount (''ecr.batchdelete.'' @ repoName @ ''.failure'')]"

fun Remove_failed_error :: "string \<Rightarrow> failure_point \<Rightarrow> error" where
  "Remove_failed_error tag (LookupFailed err) = Wrap err (''failed to get images of tag '' @ tag)"
| "Remove_failed_error tag (ImageFailed images j err) =
     Wrap err (''failed to perform batch delete image by tag '' @ tag @ '' and digest ''
               @ aws_StringValue (ImageDigest (ImageId (images ! j))))"

text \<open>A remote call that the remote answered with an error; a delete, whatever its answer; an
  increment of a counter; the requests of the lookups, in order.\<close>

fun failed :: "event \<Rightarrow> bool" where
  "failed (EvBatchGetImage req (Inl err)) = True"
| "failed (EvPutImage req (Some err)) = True"
| "failed (EvBatchDeleteImage req (Some err)) = True"
| "failed (EvDescribeImages req (Inl err)) = True"
| "failed ev = False"

fun deleting :: "event \<Rightarrow> bool" where
  "deleting (EvBatchDeleteImage req res) = True"
| "deleting ev = False"

fun counted :: "event \<Rightarrow> bool" where
  "counted (EvIncCount name) = True"
| "counted ev = False"

fun lookups :: "event list \<Rightarrow> BatchGetImageInput list" where
  "lookups [] = []"
| "lookups (EvBatchGetImage req res # evs) = req # lookups evs"
| "lookups (ev # evs) = lookups evs"

text \<open>The events a run from \<open>s\<close> to \<open>s'\<close> added to the trace.\<close>

definition events_since :: "'w sys \<Rightarrow> 'w sys \<Rightarrow> event list" where
  "events_since s s' = drop (length (trace s)) (trace s')"

text \<open>
  The trace against the remote. \<open>replay\<close> issues the calls of a list of events, in order, on
  a client and a registry: it gives the registry afterwards, or \<open>None\<close> when some call is
  answered otherwise than the event says. Increments and printed lines do not touch the
  registry.
\<close>

fun replay :: "'w ECR \<Rightarrow> event list \<Rightarrow> 'w \<Rightarrow> 'w option" where
  "replay c [] w = Some w"
| "replay c (EvBatchGetImage req res # evs) w =
     (case BatchGetImage c req w of
        (res', w') \<Rightarrow> if res' = res then replay c evs w' else None)"
| "replay c (EvPutImage req res # evs) w =
     (case PutImage c req w of
        (res', w') \<Rightarrow> if res' = res then replay c evs w' else None)"
| "replay c (EvBatchDeleteImage req res # evs) w =
     (case BatchDeleteImage c req w of
        (res', w') \<Rightarrow> if res' = res then replay c evs w' else None)"
| "replay c (EvDescribeImages req res # evs) w =
     (case DescribeImages c req w of
        (res', w') \<Rightarrow> if res' = res then replay c evs w' else None)"
| "replay c (EvIncCount name # evs) w = replay c evs w"
| "replay c (EvPrintf line # evs) w = replay c evs w"

text \<open>From \<open>s\<close> to \<open>s'\<close> the trace has only grown, and the events added are calls that the remote
  answered as recorded and that lead from the registry of \<open>s\<close> to the registry of \<open>s'\<close>.\<close>

definition run_of :: "'w ECR \<Rightarrow> 'w sys \<Rightarrow> 'w sys \<Rightarrow> bool" where
  "run_of c s s' =
     (trace s' = trace s @ events_since s s'
      \<and> replay c (events_since s s') (remote s) = Some (remote s'))"

section \<open>Properties\<close>

text \<open>The equations that run the tagger on the in-memory registry.\<close>

lemmas mem_run =
  mem_tagger_def mem_parse_def mem_ECR_def start_def mem_error_def
  call_BatchGetImage_def call_PutImage_def call_BatchDeleteImage_def call_DescribeImages_def
  IncCount_def Printf_tags_def failure_counter_def emit_def
  aws_String_def aws_StringValue_def aws_StringValueSlice_def

lemmas run_simps = Add_def Remove_def Get_def events_since_def Let_def mem_run

lemma mem_parse_app:
  "NameAccountRegionFromARN mem_tagger ''ecr:app'' = Inr (''app'', ''123'', ''r1'')"
  by (simp add: mem_tagger_def mem_parse_def)

lemma mem_parse_bad:
  "NameAccountRegionFromARN mem_tagger ''app'' = Inl (New ''not a valid repository ARN'')"
  by (simp add: mem_tagger_def mem_parse_def)

subsection \<open>The shape of a run\<close>

text \<open>What each call adds to the trace.\<close>

lemma trace_call_BatchGetImage:
  "call_BatchGetImage c req s = (res, s1) \<Longrightarrow> trace s1 = trace s @ [EvBatchGetImage req res]"
  by (auto simp: call_BatchGetImage_def emit_def split: prod.splits)

lemma trace_call_PutImage:
  "call_PutImage c req s = (res, s1) \<Longrightarrow> trace s1 = trace s @ [EvPutImage req res]"
  by (auto simp: call_PutImage_def emit_def split: prod.splits)

lemma trace_call_BatchDeleteImage:
  "call_BatchDeleteImage c req s = (res, s1) \<Longrightarrow> trace s1 = trace s @ [EvBatchDeleteImage req res]"
  by (auto simp: call_BatchDeleteImage_def emit_def split: prod.splits)

lemma trace_IncCount: "trace (IncCount name s) = trace s @ [EvIncCount name]"
  by (simp add: IncCount_def emit_def)

lemma trace_Printf_tags: "trace (Printf_tags tags s) = trace s @ [EvPrintf (tags_line tags)]"
  by (simp add: Printf_tags_def emit_def)

text \<open>
  The inner loops. A loop that returns \<^verbatim>\<open>nil\<close> has issued one successful call per image, in
  order; a loop that returns an error has issued the successful calls for the images before
  some index \<open>j\<close>, then the failing call for the image at \<open>j\<close>, then one increment.
\<close>

lemma Add_images_ok:
  "Add_images c r a tag imgs s = (None, s') \<Longrightarrow>
   trace s' = trace s @ puts r a tag imgs"
proof (induction imgs arbitrary: s)
  case Nil
  then show ?case by (simp add: puts_def)
next
  case (Cons img imgs)
  obtain res s1 where c: "call_PutImage c (put_tag r a tag img) s = (res, s1)"
    by (cases "call_PutImage c (put_tag r a tag img) s")
  with Cons.prems have res: "res = None" and rest: "Add_images c r a tag imgs s1 = (None, s')"
    by (auto simp: put_tag_def aws_String_def split: option.splits)
  from trace_call_PutImage [OF c] Cons.IH [OF rest] res show ?case by (simp add: puts_def)
qed

lemma Add_images_fail:
  "Add_images c r a tag imgs s = (Some e, s') \<Longrightarrow>
   \<exists>j err. j < length imgs
     \<and> e = Wrap err (''failed to add tag '' @ tag @ '' to image manifest ''
                      @ aws_StringValue (ImageManifest (imgs ! j)))
     \<and> trace s' = trace s @ puts r a tag (take j imgs)
         @ [EvPutImage (put_tag r a tag (imgs ! j)) (Some err),
            EvIncCount (''ecr.putimage.'' @ r @ ''.failure'')]"
proof (induction imgs arbitrary: s)
  case Nil
  then show ?case by (simp add: puts_def)
next
  case (Cons img imgs)
  obtain res s1 where c: "call_PutImage c (put_tag r a tag img) s = (res, s1)"
    by (cases "call_PutImage c (put_tag r a tag img) s")
  note t1 = trace_call_PutImage [OF c]
  show ?case
  proof (cases res)
    case None
    with c Cons.prems have rest: "Add_images c r a tag imgs s1 = (Some e, s')"
      by (simp add: put_tag_def aws_String_def)
    from Cons.IH [OF rest] obtain j err where j: "j < length imgs"
      and e: "e = Wrap err (''failed to add tag '' @ tag @ '' to image manifest ''
                      @ aws_StringValue (ImageManifest (imgs ! j)))"
      and t: "trace s' = trace s1 @ puts r a tag (take j imgs)
         @ [EvPutImage (put_tag r a tag (imgs ! j)) (Some err),
            EvIncCount (''ecr.putimage.'' @ r @ ''.failure'')]"
      by blast
    show ?thesis
      apply (rule exI [of _ "Suc j"], rule exI [of _ err])
      using j e t t1 None by (simp add: puts_def)
  next
    case (Some err)
    with c Cons.prems have e: "e = Wrap err (''failed to add tag '' @ tag @ '' to image manifest ''
                      @ aws_StringValue (ImageManifest img))"
      and s': "s' = IncCount (failure_counter ''putimage'' r) s1"
      by (simp_all add: put_tag_def aws_String_def)
    show ?thesis
      apply (rule exI [of _ 0], rule exI [of _ err])
      using e s' t1 Some by (simp add: trace_IncCount failure_counter_def puts_def)
  qed
qed

lemma Remove_images_ok:
  "Remove_images c r a tag imgs s = (None, s') \<Longrightarrow>
   trace s' = trace s @ deletes r a tag imgs"
proof (induction imgs arbitrary: s)
  case Nil
  then show ?case by (simp add: deletes_def)
next
  case (Cons img imgs)
  obtain res s1 where c: "call_BatchDeleteImage c (delete_tag_digest r a tag img) s = (res, s1)"
    by (cases "call_BatchDeleteImage c (delete_tag_digest r a tag img) s")
  with Cons.prems have res: "res = None" and rest: "Remove_images c r a tag imgs s1 = (None, s')"
    by (auto simp: delete_tag_digest_def aws_String_def split: option.splits)
  from trace_call_BatchDeleteImage [OF c] Cons.IH [OF rest] res show ?case by (simp add: deletes_def)
qed

lemma Remove_images_fail:
  "Remove_images c r a tag imgs s = (Some e, s') \<Longrightarrow>
   \<exists>j err. j < length imgs
     \<and> e = Wrap err (''failed to perform batch delete image by tag '' @ tag @ '' and digest ''
                      @ aws_StringValue (ImageDigest (ImageId (imgs ! j))))
     \<and> trace s' = trace s @ deletes r a tag (take j imgs)
         @ [EvBatchDeleteImage (delete_tag_digest r a tag (imgs ! j)) (Some err),
            EvIncCount (''ecr.batchdelete.'' @ r @ ''.failure'')]"
proof (induction imgs arbitrary: s)
  case Nil
  then show ?case by (simp add: deletes_def)
next
  case (Cons img imgs)
  obtain res s1 where c: "call_BatchDeleteImage c (delete_tag_digest r a tag img) s = (res, s1)"
    by (cases "call_BatchDeleteImage c (delete_tag_digest r a tag img) s")
  note t1 = trace_call_BatchDeleteImage [OF c]
  show ?case
  proof (cases res)
    case None
    with c Cons.prems have rest: "Remove_images c r a tag imgs s1 = (Some e, s')"
      by (simp add: delete_tag_digest_def aws_String_def)
    from Cons.IH [OF rest] obtain j err where j: "j < length imgs"
      and e: "e = Wrap err (''failed to perform batch delete image by tag '' @ tag @ '' and digest ''
                      @ aws_StringValue (ImageDigest (ImageId (imgs ! j))))"
      and t: "trace s' = trace s1 @ deletes r a tag (take j imgs)
         @ [EvBatchDeleteImage (delete_tag_digest r a tag (imgs ! j)) (Some err),
            EvIncCount (''ecr.batchdelete.'' @ r @ ''.failure'')]"
      by blast
    show ?thesis
      apply (rule exI [of _ "Suc j"], rule exI [of _ err])
      using j e t t1 None by (simp add: deletes_def)
  next
    case (Some err)
    with c Cons.prems have e: "e = Wrap err (''failed to perform batch delete image by tag '' @ tag @ '' and digest ''
                      @ aws_StringValue (ImageDigest (ImageId img)))"
      and s': "s' = IncCount (failure_counter ''batchdelete'' r) s1"
      by (simp_all add: delete_tag_digest_def aws_String_def)
    show ?thesis
      apply (rule exI [of _ 0], rule exI [of _ err])
      using e s' t1 Some by (simp add: trace_IncCount failure_counter_def deletes_def)
  qed
qed


text \<open>
  The tag loops. A loop that returns \<^verbatim>\<open>nil\<close> has completed one iteration per tag, in order,
  \<open>imgss\<close> being what the lookups answered; a loop that returns an error has completed the
  iterations of the first \<open>k\<close> tags and failed in the iteration of the tag at index \<open>k\<close>.
\<close>

lemma Add_tags_ok:
  "Add_tags c r a v all ts s = (None, s') \<Longrightarrow>
   \<exists>imgss. length imgss = length ts
     \<and> trace s' = trace s @ concat (map2 (Add_tag_events r a v all) ts imgss)"
proof (induction ts arbitrary: s)
  case Nil
  then show ?case by simp
next
  case (Cons tag rest)
  let ?s0 = "Printf_tags all s"
  obtain res s1 where c: "call_BatchGetImage c (lookup_by_tag r a v) ?s0 = (res, s1)"
    by (cases "call_BatchGetImage c (lookup_by_tag r a v) ?s0")
  note t1 = trace_call_BatchGetImage [OF c]
  from c Cons.prems obtain imgs where res: "res = Inr imgs"
    by (cases res) (auto simp: lookup_by_tag_def aws_String_def)
  obtain r2 s2 where i: "Add_images c r a tag imgs s1 = (r2, s2)"
    by (cases "Add_images c r a tag imgs s1")
  from c res i Cons.prems have r2: "r2 = None"
    and rest: "Add_tags c r a v all rest s2 = (None, s')"
    by (auto simp: lookup_by_tag_def aws_String_def split: option.splits)
  from Cons.IH [OF rest] obtain imgss where l: "length imgss = length rest"
    and t: "trace s' = trace s2 @ concat (map2 (Add_tag_events r a v all) rest imgss)"
    by blast
  from i r2 have t2: "trace s2 = trace s1 @ puts r a tag imgs"
    by (simp add: Add_images_ok)
  show ?case
    apply (rule exI [of _ "imgs # imgss"])
    using l t t2 t1 res by (simp add: trace_Printf_tags Add_tag_events_def)
qed

lemma Add_tags_fail:
  "Add_tags c r a v all ts s = (Some e, s') \<Longrightarrow>
   \<exists>k imgss fp. k < length ts \<and> length imgss = k \<and> in_range fp
     \<and> e = Add_failed_error (ts ! k) fp
     \<and> trace s' = trace s @ concat (map2 (Add_tag_events r a v all) (take k ts) imgss)
         @ Add_failed_events r a v all (ts ! k) fp"
proof (induction ts arbitrary: s)
  case Nil
  then show ?case by simp
next
  case (Cons tag rest)
  let ?s0 = "Printf_tags all s"
  obtain res s1 where c: "call_BatchGetImage c (lookup_by_tag r a v) ?s0 = (res, s1)"
    by (cases "call_BatchGetImage c (lookup_by_tag r a v) ?s0")
  note t1 = trace_call_BatchGetImage [OF c]
  show ?case
  proof (cases res)
    case (Inl err)
    with c Cons.prems have e: "e = Wrap err (''failed to get images of tag '' @ tag)"
      and s': "s' = IncCount (failure_counter ''batchget'' r) s1"
      by (simp_all add: lookup_by_tag_def aws_String_def)
    show ?thesis
      apply (rule exI [of _ 0], rule exI [of _ "[]"], rule exI [of _ "LookupFailed err"])
      using e s' t1 Inl by (simp add: trace_IncCount trace_Printf_tags failure_counter_def)
  next
    case (Inr imgs)
    obtain r2 s2 where i: "Add_images c r a tag imgs s1 = (r2, s2)"
      by (cases "Add_images c r a tag imgs s1")
    show ?thesis
    proof (cases r2)
      case None
      with c Inr i Cons.prems have rest: "Add_tags c r a v all rest s2 = (Some e, s')"
        by (simp add: lookup_by_tag_def aws_String_def)
      from Cons.IH [OF rest] obtain k imgss fp where k: "k < length rest"
        and l: "length imgss = k" and fp: "in_range fp"
        and e: "e = Add_failed_error (rest ! k) fp"
        and t: "trace s' = trace s2 @ concat (map2 (Add_tag_events r a v all) (take k rest) imgss)
                  @ Add_failed_events r a v all (rest ! k) fp"
        by blast
      from i None have t2: "trace s2 = trace s1 @ puts r a tag imgs"
        by (simp add: Add_images_ok)
      show ?thesis
        apply (rule exI [of _ "Suc k"], rule exI [of _ "imgs # imgss"], rule exI [of _ fp])
        using k l fp e t t2 t1 Inr by (simp add: trace_Printf_tags Add_tag_events_def)
    next
      case (Some e2)
      with c Inr i Cons.prems have e2: "e2 = e" and s2: "s2 = s'"
        by (simp_all add: lookup_by_tag_def aws_String_def)
      from Add_images_fail [OF i [unfolded Some e2 s2]] obtain j err where j: "j < length imgs"
        and e: "e = Wrap err (''failed to add tag '' @ tag @ '' to image manifest ''
                      @ aws_StringValue (ImageManifest (imgs ! j)))"
        and t: "trace s' = trace s1 @ puts r a tag (take j imgs)
                  @ [EvPutImage (put_tag r a tag (imgs ! j)) (Some err),
                     EvIncCount (''ecr.putimage.'' @ r @ ''.failure'')]"
        by blast
      show ?thesis
        apply (rule exI [of _ 0], rule exI [of _ "[]"], rule exI [of _ "ImageFailed imgs j err"])
        using j e t t1 Inr by (simp add: trace_Printf_tags)
    qed
  qed
qed

lemma Remove_tags_ok:
  "Remove_tags c r a ts s = (None, s') \<Longrightarrow>
   \<exists>imgss. length imgss = length ts
     \<and> trace s' = trace s @ concat (map2 (Remove_tag_events r a) ts imgss)"
proof (induction ts arbitrary: s)
  case Nil
  then show ?case by simp
next
  case (Cons tag rest)
  obtain res s1 where c: "call_BatchGetImage c (lookup_by_tag r a tag) s = (res, s1)"
    by (cases "call_BatchGetImage c (lookup_by_tag r a tag) s")
  note t1 = trace_call_BatchGetImage [OF c]
  from c Cons.prems obtain imgs where res: "res = Inr imgs"
    by (cases res) (auto simp: lookup_by_tag_def aws_String_def)
  obtain r2 s2 where i: "Remove_images c r a tag imgs s1 = (r2, s2)"
    by (cases "Remove_images c r a tag imgs s1")
  from c res i Cons.prems have r2: "r2 = None"
    and rest: "Remove_tags c r a rest s2 = (None, s')"
    by (auto simp: lookup_by_tag_def aws_String_def split: option.splits)
  from Cons.IH [OF rest] obtain imgss where l: "length imgss = length rest"
    and t: "trace s' = trace s2 @ concat (map2 (Remove_tag_events r a) rest imgss)"
    by blast
  from i r2 have t2: "trace s2 = trace s1 @ deletes r a tag imgs"
    by (simp add: Remove_images_ok)
  show ?case
    apply (rule exI [of _ "imgs # imgss"])
    using l t t2 t1 res by (simp add: Remove_tag_events_def)
qed

lemma Remove_tags_fail:
  "Remove_tags c r a ts s = (Some e, s') \<Longrightarrow>
   \<exists>k imgss fp. k < length ts \<and> length imgss = k \<and> in_range fp
     \<and> e = Remove_failed_error (ts ! k) fp
     \<and> trace s' = trace s @ concat (map2 (Remove_tag_events r a) (take k ts) imgss)
         @ Remove_failed_events r a (ts ! k) fp"
proof (induction ts arbitrary: s)
  case Nil
  then show ?case by simp
next
  case (Cons tag rest)
  obtain res s1 where c: "call_BatchGetImage c (lookup_by_tag r a tag) s = (res, s1)"
    by (cases "call_BatchGetImage c (lookup_by_tag r a tag) s")
  note t1 = trace_call_BatchGetImage [OF c]
  show ?case
  proof (cases res)
    case (Inl err)
    with c Cons.prems have e: "e = Wrap err (''failed to get images of tag '' @ tag)"
      and s': "s' = IncCount (failure_counter ''batchget'' r) s1"
      by (simp_all add: lookup_by_tag_def aws_String_def)
    show ?thesis
      apply (rule exI [of _ 0], rule exI [of _ "[]"], rule exI [of _ "LookupFailed err"])
      using e s' t1 Inl by (simp add: trace_IncCount failure_counter_def)
  next
    case (Inr imgs)
    obtain r2 s2 where i: "Remove_images c r a tag imgs s1 = (r2, s2)"
      by (cases "Remove_images c r a tag imgs s1")
    show ?thesis
    proof (cases r2)
      case None
      with c Inr i Cons.prems have rest: "Remove_tags c r a rest s2 = (Some e, s')"
        by (simp add: lookup_by_tag_def aws_String_def)
      from Cons.IH [OF rest] obtain k imgss fp where k: "k < length rest"
        and l: "length imgss = k" and fp: "in_range fp"
        and e: "e = Remove_failed_error (rest ! k) fp"
        and t: "trace s' = trace s2 @ concat (map2 (Remove_tag_events r a) (take k rest) imgss)
                  @ Remove_failed_events r a (rest ! k) fp"
        by blast
      from i None have t2: "trace s2 = trace s1 @ deletes r a tag imgs"
        by (simp add: Remove_images_ok)
      show ?thesis
        apply (rule exI [of _ "Suc k"], rule exI [of _ "imgs # imgss"], rule exI [of _ fp])
        using k l fp e t t2 t1 Inr by (simp add: Remove_tag_events_def)
    next
      case (Some e2)
      with c Inr i Cons.prems have e2: "e2 = e" and s2: "s2 = s'"
        by (simp_all add: lookup_by_tag_def aws_String_def)
      from Remove_images_fail [OF i [unfolded Some e2 s2]] obtain j err where j: "j < length imgs"
        and e: "e = Wrap err (''failed to perform batch delete image by tag '' @ tag
                      @ '' and digest '' @ aws_StringValue (ImageDigest (ImageId (imgs ! j))))"
        and t: "trace s' = trace s1 @ deletes r a tag (take j imgs)
                  @ [EvBatchDeleteImage (delete_tag_digest r a tag (imgs ! j)) (Some err),
                     EvIncCount (''ecr.batchdelete.'' @ r @ ''.failure'')]"
        by blast
      show ?thesis
        apply (rule exI [of _ 0], rule exI [of _ "[]"], rule exI [of _ "ImageFailed imgs j err"])
        using j e t t1 Inr by simp
    qed
  qed
qed

text \<open>Facts about the events of completed and of failed iterations.\<close>

lemma events_since_append: "trace s' = trace s @ evs \<Longrightarrow> events_since s s' = evs"
  by (simp add: events_since_def)

lemma events_since_same: "events_since s s = []"
  by (simp add: events_since_def)

lemma filter_concat_map2:
  "(\<And>x y. filter P (f x y) = []) \<Longrightarrow> filter P (concat (map2 f xs ys)) = []"
  by (induction xs arbitrary: ys) (auto split: list.splits simp: zip_Cons1)

lemma lookups_append: "lookups (xs @ ys) = lookups xs @ lookups ys"
  by (induction xs rule: lookups.induct) simp_all

lemma quiet_puts:
  "filter failed (puts r a tag imgs) = []" "filter counted (puts r a tag imgs) = []"
  "filter deleting (puts r a tag imgs) = []" "lookups (puts r a tag imgs) = []"
  by (induction imgs) (simp_all add: puts_def)

lemma quiet_deletes:
  "filter failed (deletes r a tag imgs) = []" "filter counted (deletes r a tag imgs) = []"
  "lookups (deletes r a tag imgs) = []"
  by (induction imgs) (simp_all add: deletes_def)

lemma quiet_Add_tag_events:
  "filter failed (Add_tag_events r a v all tag imgs) = []"
  "filter counted (Add_tag_events r a v all tag imgs) = []"
  "filter deleting (Add_tag_events r a v all tag imgs) = []"
  "lookups (Add_tag_events r a v all tag imgs) = [lookup_by_tag r a v]"
  by (simp_all add: Add_tag_events_def quiet_puts)

lemma quiet_Remove_tag_events:
  "filter failed (Remove_tag_events r a tag imgs) = []"
  "filter counted (Remove_tag_events r a tag imgs) = []"
  "lookups (Remove_tag_events r a tag imgs) = [lookup_by_tag r a tag]"
  by (simp_all add: Remove_tag_events_def quiet_deletes)

lemma one_failure_Add:
  "in_range fp \<Longrightarrow> length (filter failed (Add_failed_events r a v all tag fp)) = 1"
  "length (filter counted (Add_failed_events r a v all tag fp)) = 1"
  "filter deleting (Add_failed_events r a v all tag fp) = []"
  "lookups (Add_failed_events r a v all tag fp) = [lookup_by_tag r a v]"
  by (cases fp; simp add: quiet_puts lookups_append)+

lemma one_failure_Remove:
  "length (filter failed (Remove_failed_events r a tag fp)) = 1"
  "length (filter counted (Remove_failed_events r a tag fp)) = 1"
  "lookups (Remove_failed_events r a tag fp) = [lookup_by_tag r a tag]"
  by (cases fp; simp add: quiet_deletes lookups_append)+

lemma lookups_Add_iterations:
  "length imgss = length ts \<Longrightarrow>
   lookups (concat (map2 (Add_tag_events r a v all) ts imgss)) = replicate (length ts) (lookup_by_tag r a v)"
  by (induction ts imgss rule: list_induct2') (simp_all add: lookups_append quiet_Add_tag_events)

text \<open>Every run of \<open>Add\<close>, \<open>Remove\<close> and \<open>Get\<close> on a reference that the parser accepts.\<close>

lemma Add_run:
  assumes p: "NameAccountRegionFromARN t ecrARN = Inr (r, a, region)"
    and run: "Add t ecrARN v tags s = (res, s')"
  shows "(res = None \<and> (\<exists>imgss. length imgss = length tags
            \<and> trace s' = trace s @ concat (map2 (Add_tag_events r a v tags) tags imgss)))
       \<or> (\<exists>k imgss fp. k < length tags \<and> length imgss = k \<and> in_range fp
            \<and> res = Some (Add_failed_error (tags ! k) fp)
            \<and> trace s' = trace s @ concat (map2 (Add_tag_events r a v tags) (take k tags) imgss)
                @ Add_failed_events r a v tags (tags ! k) fp)"
proof -
  from p run have l: "Add_tags (ecr_New t region) r a v tags tags s = (res, s')"
    by (simp add: Add_def)
  show ?thesis
  proof (cases res)
    case None
    with Add_tags_ok [of "ecr_New t region" r a v tags tags s s'] l show ?thesis by simp
  next
    case (Some e)
    with Add_tags_fail [of "ecr_New t region" r a v tags tags s e s'] l show ?thesis by simp
  qed
qed

lemma Remove_run:
  assumes p: "NameAccountRegionFromARN t ecrARN = Inr (r, a, region)"
    and run: "Remove t ecrARN tags s = (res, s')"
  shows "(res = None \<and> (\<exists>imgss. length imgss = length tags
            \<and> trace s' = trace s @ concat (map2 (Remove_tag_events r a) tags imgss)))
       \<or> (\<exists>k imgss fp. k < length tags \<and> length imgss = k \<and> in_range fp
            \<and> res = Some (Remove_failed_error (tags ! k) fp)
            \<and> trace s' = trace s @ concat (map2 (Remove_tag_events r a) (take k tags) imgss)
                @ Remove_failed_events r a (tags ! k) fp)"
proof -
  from p run have l: "Remove_tags (ecr_New t region) r a tags s = (res, s')"
    by (simp add: Remove_def)
  show ?thesis
  proof (cases res)
    case None
    with Remove_tags_ok [of "ecr_New t region" r a tags s s'] l show ?thesis by simp
  next
    case (Some e)
    with Remove_tags_fail [of "ecr_New t region" r a tags s e s'] l show ?thesis by simp
  qed
qed

lemma quiet_iterations:
  "filter failed (concat (map2 (Add_tag_events r a v all) ts imgss)) = []"
  "filter counted (concat (map2 (Add_tag_events r a v all) ts imgss)) = []"
  "filter failed (concat (map2 (Remove_tag_events r a) ts imgss)) = []"
  "filter counted (concat (map2 (Remove_tag_events r a) ts imgss)) = []"
  by (simp_all add: filter_concat_map2 quiet_Add_tag_events quiet_Remove_tag_events)

lemma trace_call_DescribeImages:
  "call_DescribeImages c req s = (res, s1) \<Longrightarrow> trace s1 = trace s @ [EvDescribeImages req res]"
  by (auto simp: call_DescribeImages_def emit_def split: prod.splits)

lemma Get_run:
  assumes p: "NameAccountRegionFromARN t ecrARN = Inr (r, a, region)"
    and run: "Get t ecrARN version s = (out, s')"
  shows "(\<exists>details. trace s' = trace s @ [EvDescribeImages
             (DescribeImagesInput [ImageIdentifier None (Some version)] (Some a) (Some r))
             (Inr details)]
           \<and> out = (if length details > 1
                    then Returned (Inl (New
                           ''More than one image with version tag was found ... bad state!''))
                    else case details of [] \<Rightarrow> Panicked (IndexOutOfRange 0 0)
                         | d # ds \<Rightarrow> Returned (Inr (aws_StringValueSlice (ImageTags d)))))
       \<or> (\<exists>err. trace s' = trace s @ [EvDescribeImages
             (DescribeImagesInput [ImageIdentifier None (Some version)] (Some a) (Some r))
             (Inl err), EvIncCount (''ecr.descimg.'' @ r @ ''.failure'')]
           \<and> out = Returned (Inl (Wrap err (''failed to get images of tag '' @ version))))"
proof -
  let ?req = "DescribeImagesInput [ImageIdentifier None (Some version)] (Some a) (Some r)"
  obtain res s1 where c: "call_DescribeImages (ecr_New t region) ?req s = (res, s1)"
    by (cases "call_DescribeImages (ecr_New t region) ?req s")
  note t1 = trace_call_DescribeImages [OF c]
  show ?thesis
  proof (cases res)
    case (Inl err)
    with p run c have "out = Returned (Inl (Wrap err (''failed to get images of tag '' @ version)))"
      and "s' = IncCount (failure_counter ''descimg'' r) s1"
      by (simp_all add: Get_def aws_String_def)
    with t1 Inl show ?thesis by (simp add: trace_IncCount failure_counter_def)
  next
    case (Inr details)
    with p run c have "s' = s1"
      by (simp add: Get_def aws_String_def split: if_splits list.splits)
    moreover from Inr p run c
    have "out = (if length details > 1
                    then Returned (Inl (New
                           ''More than one image with version tag was found ... bad state!''))
                    else case details of [] \<Rightarrow> Panicked (IndexOutOfRange 0 0)
                         | d # ds \<Rightarrow> Returned (Inr (aws_StringValueSlice (ImageTags d))))"
      by (simp add: Get_def aws_String_def split: if_splits list.splits)
    ultimately show ?thesis using t1 Inr by simp
  qed
qed


lemma Add_counts:
  "length (filter counted (events_since s (snd (Add t ecrARN version tags s))))
     = length (filter failed (events_since s (snd (Add t ecrARN version tags s))))"
proof (cases "NameAccountRegionFromARN t ecrARN")
  case (Inl err)
  then show ?thesis by (simp add: Add_def events_since_same)
next
  case (Inr triple)
  obtain r a region where tr: "triple = (r, a, region)" by (cases triple)
  obtain res s' where run: "Add t ecrARN version tags s = (res, s')"
    by (cases "Add t ecrARN version tags s")
  from Add_run [OF Inr [unfolded tr] run]
  have "length (filter counted (events_since s s')) = length (filter failed (events_since s s'))"
    by (auto simp: events_since_def quiet_iterations one_failure_Add)
  with run show ?thesis by simp
qed

lemma Remove_counts:
  "length (filter counted (events_since s (snd (Remove t ecrARN tags s))))
     = length (filter failed (events_since s (snd (Remove t ecrARN tags s))))"
proof (cases "NameAccountRegionFromARN t ecrARN")
  case (Inl err)
  then show ?thesis by (simp add: Remove_def events_since_same)
next
  case (Inr triple)
  obtain r a region where tr: "triple = (r, a, region)" by (cases triple)
  obtain res s' where run: "Remove t ecrARN tags s = (res, s')"
    by (cases "Remove t ecrARN tags s")
  from Remove_run [OF Inr [unfolded tr] run]
  have "length (filter counted (events_since s s')) = length (filter failed (events_since s s'))"
    by (auto simp: events_since_def quiet_iterations one_failure_Remove)
  with run show ?thesis by simp
qed

lemma Get_counts:
  "length (filter counted (events_since s (snd (Get t ecrARN version s))))
     = length (filter failed (events_since s (snd (Get t ecrARN version s))))"
proof (cases "NameAccountRegionFromARN t ecrARN")
  case (Inl err)
  then show ?thesis by (simp add: Get_def events_since_same)
next
  case (Inr triple)
  obtain r a region where tr: "triple = (r, a, region)" by (cases triple)
  obtain out s' where run: "Get t ecrARN version s = (out, s')"
    by (cases "Get t ecrARN version s")
  from Get_run [OF Inr [unfolded tr] run]
  have "length (filter counted (events_since s s')) = length (filter failed (events_since s s'))"
    by (auto simp: events_since_def)
  with run show ?thesis by simp
qed

lemma Get_violation_quiet:
  assumes "fst (Get t ecrARN version s)
             = Returned (Inl (New ''More than one image with version tag was found ... bad state!''))"
  shows "filter counted (events_since s (snd (Get t ecrARN version s))) = []"
proof (cases "NameAccountRegionFromARN t ecrARN")
  case (Inl err)
  with assms show ?thesis by (simp add: Get_def)
next
  case (Inr triple)
  obtain r a region where tr: "triple = (r, a, region)" by (cases triple)
  obtain out s' where run: "Get t ecrARN version s = (out, s')"
    by (cases "Get t ecrARN version s")
  with assms have out: "out = Returned (Inl (New
      ''More than one image with version tag was found ... bad state!''))" by simp
  from Get_run [OF Inr [unfolded tr] run] out
  have "filter counted (events_since s s') = []"
    by (auto simp: events_since_def)
  with run show ?thesis by simp
qed

text \<open>
  Every run is a run of the remote: the events it adds to the trace replay on the client, with
  the recorded answers, from the registry it started on to the registry it ends on.
\<close>

lemma replay_append:
  "replay c (xs @ ys) w = (case replay c xs w of None \<Rightarrow> None | Some w' \<Rightarrow> replay c ys w')"
  by (induction c xs w rule: replay.induct) (auto split: prod.splits)

lemma run_ofI:
  "trace s' = trace s @ evs \<Longrightarrow> replay c evs (remote s) = Some (remote s') \<Longrightarrow> run_of c s s'"
  by (simp add: run_of_def events_since_def)

lemma run_of_refl: "run_of c s s"
  by (simp add: run_of_def events_since_def)

lemma run_of_trans: "run_of c s s1 \<Longrightarrow> run_of c s1 s2 \<Longrightarrow> run_of c s s2"
proof -
  assume a: "run_of c s s1" and b: "run_of c s1 s2"
  let ?e1 = "events_since s s1" and ?e2 = "events_since s1 s2"
  from a b have "trace s2 = trace s @ (?e1 @ ?e2)" by (simp add: run_of_def)
  moreover from a b have "replay c (?e1 @ ?e2) (remote s) = Some (remote s2)"
    by (simp add: run_of_def replay_append)
  ultimately show ?thesis by (rule run_ofI)
qed

lemma run_of_call_BatchGetImage:
  "call_BatchGetImage c req s = (res, s1) \<Longrightarrow> run_of c s s1"
  by (rule run_ofI [of _ _ "[EvBatchGetImage req res]"])
     (auto simp: call_BatchGetImage_def emit_def split: prod.splits)

lemma run_of_call_PutImage:
  "call_PutImage c req s = (res, s1) \<Longrightarrow> run_of c s s1"
  by (rule run_ofI [of _ _ "[EvPutImage req res]"])
     (auto simp: call_PutImage_def emit_def split: prod.splits)

lemma run_of_call_BatchDeleteImage:
  "call_BatchDeleteImage c req s = (res, s1) \<Longrightarrow> run_of c s s1"
  by (rule run_ofI [of _ _ "[EvBatchDeleteImage req res]"])
     (auto simp: call_BatchDeleteImage_def emit_def split: prod.splits)

lemma run_of_call_DescribeImages:
  "call_DescribeImages c req s = (res, s1) \<Longrightarrow> run_of c s s1"
  by (rule run_ofI [of _ _ "[EvDescribeImages req res]"])
     (auto simp: call_DescribeImages_def emit_def split: prod.splits)

lemma run_of_IncCount: "run_of c s (IncCount name s)"
  by (rule run_ofI [of _ _ "[EvIncCount name]"]) (simp_all add: IncCount_def emit_def)

lemma run_of_Printf_tags: "run_of c s (Printf_tags tags s)"
  by (rule run_ofI [of _ _ "[EvPrintf (tags_line tags)]"]) (simp_all add: Printf_tags_def emit_def)

lemma Add_images_run_of:
  "Add_images c r a tag imgs s = (res, s') \<Longrightarrow> run_of c s s'"
proof (induction imgs arbitrary: s)
  case Nil
  then show ?case by (simp add: run_of_refl)
next
  case (Cons img imgs)
  obtain r1 s1 where c: "call_PutImage c (put_tag r a tag img) s = (r1, s1)"
    by (cases "call_PutImage c (put_tag r a tag img) s")
  note h = run_of_call_PutImage [OF c]
  show ?case
  proof (cases r1)
    case None
    with c Cons.prems have "Add_images c r a tag imgs s1 = (res, s')"
      by (simp add: put_tag_def aws_String_def)
    from run_of_trans [OF h Cons.IH [OF this]] show ?thesis .
  next
    case (Some err)
    with c Cons.prems have "s' = IncCount (failure_counter ''putimage'' r) s1"
      by (simp add: put_tag_def aws_String_def)
    with run_of_trans [OF h run_of_IncCount] show ?thesis by simp
  qed
qed

lemma Remove_images_run_of:
  "Remove_images c r a tag imgs s = (res, s') \<Longrightarrow> run_of c s s'"
proof (induction imgs arbitrary: s)
  case Nil
  then show ?case by (simp add: run_of_refl)
next
  case (Cons img imgs)
  obtain r1 s1 where c: "call_BatchDeleteImage c (delete_tag_digest r a tag img) s = (r1, s1)"
    by (cases "call_BatchDeleteImage c (delete_tag_digest r a tag img) s")
  note h = run_of_call_BatchDeleteImage [OF c]
  show ?case
  proof (cases r1)
    case None
    with c Cons.prems have "Remove_images c r a tag imgs s1 = (res, s')"
      by (simp add: delete_tag_digest_def aws_String_def)
    from run_of_trans [OF h Cons.IH [OF this]] show ?thesis .
  next
    case (Some err)
    with c Cons.prems have "s' = IncCount (failure_counter ''batchdelete'' r) s1"
      by (simp add: delete_tag_digest_def aws_String_def)
    with run_of_trans [OF h run_of_IncCount] show ?thesis by simp
  qed
qed

lemma Add_tags_run_of:
  "Add_tags c r a v all ts s = (res, s') \<Longrightarrow> run_of c s s'"
proof (induction ts arbitrary: s)
  case Nil
  then show ?case by (simp add: run_of_refl)
next
  case (Cons tag rest)
  let ?s0 = "Printf_tags all s"
  obtain r1 s1 where c: "call_BatchGetImage c (lookup_by_tag r a v) ?s0 = (r1, s1)"
    by (cases "call_BatchGetImage c (lookup_by_tag r a v) ?s0")
  note h = run_of_trans [OF run_of_Printf_tags run_of_call_BatchGetImage [OF c]]
  show ?case
  proof (cases r1)
    case (Inl err)
    with c Cons.prems have "s' = IncCount (failure_counter ''batchget'' r) s1"
      by (simp add: lookup_by_tag_def aws_String_def)
    with run_of_trans [OF h run_of_IncCount] show ?thesis by simp
  next
    case (Inr imgs)
    obtain r2 s2 where i: "Add_images c r a tag imgs s1 = (r2, s2)"
      by (cases "Add_images c r a tag imgs s1")
    note h2 = run_of_trans [OF h Add_images_run_of [OF i]]
    show ?thesis
    proof (cases r2)
      case None
      with c Inr i Cons.prems have "Add_tags c r a v all rest s2 = (res, s')"
        by (simp add: lookup_by_tag_def aws_String_def)
      from run_of_trans [OF h2 Cons.IH [OF this]] show ?thesis .
    next
      case (Some e)
      with c Inr i Cons.prems have "s2 = s'"
        by (simp add: lookup_by_tag_def aws_String_def)
      with h2 show ?thesis by simp
    qed
  qed
qed

lemma Remove_tags_run_of:
  "Remove_tags c r a ts s = (res, s') \<Longrightarrow> run_of c s s'"
proof (induction ts arbitrary: s)
  case Nil
  then show ?case by (simp add: run_of_refl)
next
  case (Cons tag rest)
  obtain r1 s1 where c: "call_BatchGetImage c (lookup_by_tag r a tag) s = (r1, s1)"
    by (cases "call_BatchGetImage c (lookup_by_tag r a tag) s")
  note h = run_of_call_BatchGetImage [OF c]
  show ?case
  proof (cases r1)
    case (Inl err)
    with c Cons.prems have "s' = IncCount (failure_counter ''batchget'' r) s1"
      by (simp add: lookup_by_tag_def aws_String_def)
    with run_of_trans [OF h run_of_IncCount] show ?thesis by simp
  next
    case (Inr imgs)
    obtain r2 s2 where i: "Remove_images c r a tag imgs s1 = (r2, s2)"
      by (cases "Remove_images c r a tag imgs s1")
    note h2 = run_of_trans [OF h Remove_images_run_of [OF i]]
    show ?thesis
    proof (cases r2)
      case None
      with c Inr i Cons.prems have "Remove_tags c r a rest s2 = (res, s')"
        by (simp add: lookup_by_tag_def aws_String_def)
      from run_of_trans [OF h2 Cons.IH [OF this]] show ?thesis .
    next
      case (Some e)
      with c Inr i Cons.prems have "s2 = s'"
        by (simp add: lookup_by_tag_def aws_String_def)
      with h2 show ?thesis by simp
    qed
  qed
qed

lemma Add_replay:
  assumes "NameAccountRegionFromARN t ecrARN = Inr (r, a, region)"
    and "Add t ecrARN v tags s = (res, s')"
  shows "replay (ecr_New t region) (events_since s s') (remote s) = Some (remote s')"
  using assms Add_tags_run_of [of "ecr_New t region" r a v tags tags s res s']
  by (simp add: Add_def run_of_def)

lemma Remove_replay:
  assumes "NameAccountRegionFromARN t ecrARN = Inr (r, a, region)"
    and "Remove t ecrARN tags s = (res, s')"
  shows "replay (ecr_New t region) (events_since s s') (remote s) = Some (remote s')"
  using assms Remove_tags_run_of [of "ecr_New t region" r a tags s res s']
  by (simp add: Remove_def run_of_def)

lemma Get_replay:
  assumes p: "NameAccountRegionFromARN t ecrARN = Inr (r, a, region)"
    and run: "Get t ecrARN version s = (out, s')"
  shows "replay (ecr_New t region) (events_since s s') (remote s) = Some (remote s')"
proof -
  let ?req = "DescribeImagesInput [ImageIdentifier None (Some version)] (Some a) (Some r)"
  obtain res s1 where c: "call_DescribeImages (ecr_New t region) ?req s = (res, s1)"
    by (cases "call_DescribeImages (ecr_New t region) ?req s")
  note h = run_of_call_DescribeImages [OF c]
  have "run_of (ecr_New t region) s s'"
  proof (cases res)
    case (Inl err)
    with p run c have "s' = IncCount (failure_counter ''descimg'' r) s1"
      by (simp add: Get_def aws_String_def)
    with run_of_trans [OF h run_of_IncCount] show ?thesis by simp
  next
    case (Inr details)
    with p run c have "s' = s1"
      by (simp add: Get_def aws_String_def split: if_splits list.splits)
    with h show ?thesis by simp
  qed
  then show ?thesis by (simp add: run_of_def)
qed

text \<open>A run that fails in the iteration at index \<open>k\<close> has issued \<open>k + 1\<close> lookups.\<close>

lemma count_lookups_Remove_iterations:
  "length imgss = length ts \<Longrightarrow>
   length (lookups (concat (map2 (Remove_tag_events r a) ts imgss))) = length ts"
  by (induction ts imgss rule: list_induct2') (simp_all add: lookups_append quiet_Remove_tag_events)

lemma count_lookups_Add_run:
  "length imgss = k \<Longrightarrow> k < length tags \<Longrightarrow>
   length (lookups (concat (map2 (Add_tag_events r a v all) (take k tags) imgss)
                    @ Add_failed_events r a v all tag fp)) = Suc k"
  by (simp add: lookups_append lookups_Add_iterations one_failure_Add)

lemma count_lookups_Remove_run:
  "length imgss = k \<Longrightarrow> k < length tags \<Longrightarrow>
   length (lookups (concat (map2 (Remove_tag_events r a) (take k tags) imgss)
                    @ Remove_failed_events r a tag fp)) = Suc k"
  by (simp add: lookups_append count_lookups_Remove_iterations one_failure_Remove)

subsection \<open>Malformed references\<close>

text \<open>
  C6. When the parser rejects the reference, each of \<open>Add\<close>, \<open>Remove\<close> and \<open>Get\<close> returns the
  parser's error wrapped with the message "failed to read ECR repository ARN", and the
  state is the one it started from: no remote call, no counter, no output.
\<close>

theorem parse_failure_aborts:
  assumes "NameAccountRegionFromARN t ecrARN = Inl err"
  shows "Add t ecrARN version tags s = (Some (Wrap err ''failed to read ECR repository ARN''), s)
       \<and> Remove t ecrARN tags s = (Some (Wrap err ''failed to read ECR repository ARN''), s)
       \<and> Get t ecrARN version s
           = (Returned (Inl (Wrap err ''failed to read ECR repository ARN'')), s)"
  using assms by (simp add: Add_def Remove_def Get_def)

theorem parse_failure_aborts_witness:
  "NameAccountRegionFromARN mem_tagger ''app'' = Inl (New ''not a valid repository ARN'')
   \<and> Add mem_tagger ''app'' ''v1'' [''dev'', ''qa''] (start 9 [(''d1'', ''m1'', [''v1''])])
       = (Some (Wrap (New ''not a valid repository ARN'') ''failed to read ECR repository ARN''),
          start 9 [(''d1'', ''m1'', [''v1''])])
   \<and> Remove mem_tagger ''app'' [''dev'', ''qa''] (start 9 [(''d1'', ''m1'', [''v1''])])
       = (Some (Wrap (New ''not a valid repository ARN'') ''failed to read ECR repository ARN''),
          start 9 [(''d1'', ''m1'', [''v1''])])
   \<and> Get mem_tagger ''app'' ''v1'' (start 9 [(''d1'', ''m1'', [''v1''])])
       = (Returned (Inl (Wrap (New ''not a valid repository ARN'')
            ''failed to read ECR repository ARN'')), start 9 [(''d1'', ''m1'', [''v1''])])"
proof -
  note h = mem_parse_bad
  from parse_failure_aborts [OF h] show ?thesis using h by simp
qed

subsection \<open>Empty tag lists\<close>

text \<open>
  C9. For a reference the parser accepts, \<open>Add\<close> and \<open>Remove\<close> with an empty tag list return
  \<^verbatim>\<open>nil\<close> and leave the state as it was: no remote call is issued.
\<close>

theorem empty_tag_list_is_noop:
  assumes "NameAccountRegionFromARN t ecrARN = Inr (repoName, accountID, region)"
  shows "Add t ecrARN version [] s = (None, s) \<and> Remove t ecrARN [] s = (None, s)"
  using assms by (simp add: Add_def Remove_def)

theorem empty_tag_list_is_noop_witness:
  "NameAccountRegionFromARN mem_tagger ''ecr:app'' = Inr (''app'', ''123'', ''r1'')
   \<and> Add mem_tagger ''ecr:app'' ''v1'' [] (start 9 [(''d1'', ''m1'', [''v1''])])
       = (None, start 9 [(''d1'', ''m1'', [''v1''])])
   \<and> Remove mem_tagger ''ecr:app'' [] (start 9 [(''d1'', ''m1'', [''v1''])])
       = (None, start 9 [(''d1'', ''m1'', [''v1''])])"
proof -
  note h = mem_parse_app
  from empty_tag_list_is_noop [OF h] show ?thesis using h by simp
qed

subsection \<open>\<open>Get\<close> on zero and on several images\<close>

text \<open>
  Whenever the lookup of \<open>Get\<close> succeeds with no image, line 164 indexes the empty slice and
  the call panics.
\<close>

lemma Get_empty_result:
  assumes "NameAccountRegionFromARN t ecrARN = Inr (repoName, accountID, region)"
    and "DescribeImages (ecr_New t region)
           (DescribeImagesInput [ImageIdentifier None (Some version)]
              (Some accountID) (Some repoName))
           (remote s) = (Inr [], w)"
  shows "fst (Get t ecrARN version s) = Panicked (IndexOutOfRange 0 0)"
  using assms by (simp add: Get_def call_DescribeImages_def aws_String_def)

text \<open>
  C1 asks for an explicit not-found error when no image matches the version. The code does
  not return one: on a registry whose only image is tagged \<open>v1\<close> and \<open>dev\<close>, \<open>Get\<close> of \<open>v2\<close>
  issues the lookup, receives no image and panics with an index out of range.
\<close>

theorem Get_no_image_panics:
  "Get mem_tagger ''ecr:app'' ''v2'' (start 9 [(''d1'', ''m1'', [''v1'', ''dev''])])
     = (Panicked (IndexOutOfRange 0 0),
        \<lparr>remote = (8, [(''d1'', ''m1'', [''v1'', ''dev''])]),
         trace = [EvDescribeImages
                    (DescribeImagesInput [ImageIdentifier None (Some ''v2'')]
                       (Some ''123'') (Some ''app''))
                    (Inr [])]\<rparr>)"
  by (simp add: Get_def mem_run)

text \<open>
  C3. When the lookup of \<open>Get\<close> succeeds with two or more images, \<open>Get\<close> returns the error
  "More than one image with version tag was found ... bad state!". The lookup is the only
  effect: the registry is as the lookup left it, and the trace gains that one event (no
  put, no delete, no counter).
\<close>

theorem Get_several_images:
  assumes "NameAccountRegionFromARN t ecrARN = Inr (repoName, accountID, region)"
    and "DescribeImages (ecr_New t region)
           (DescribeImagesInput [ImageIdentifier None (Some version)]
              (Some accountID) (Some repoName))
           (remote s) = (Inr details, w)"
    and "2 \<le> length details"
  shows "Get t ecrARN version s =
           (Returned (Inl (New ''More than one image with version tag was found ... bad state!'')),
            s\<lparr>remote := w,
              trace := trace s @ [EvDescribeImages
                (DescribeImagesInput [ImageIdentifier None (Some version)]
                   (Some accountID) (Some repoName))
                (Inr details)]\<rparr>)"
  using assms by (simp add: Get_def call_DescribeImages_def aws_String_def emit_def)

theorem Get_several_images_witness:
  "Get mem_tagger ''ecr:app'' ''v1''
     (start 9 [(''d1'', ''m1'', [''v1'']), (''d2'', ''m2'', [''v1'', ''qa''])]) =
           (Returned (Inl (New ''More than one image with version tag was found ... bad state!'')),
            \<lparr>remote = (8, [(''d1'', ''m1'', [''v1'']), (''d2'', ''m2'', [''v1'', ''qa''])]),
             trace = [EvDescribeImages
                (DescribeImagesInput [ImageIdentifier None (Some ''v1'')]
                   (Some ''123'') (Some ''app''))
                (Inr [ImageDetail [Some ''v1''], ImageDetail [Some ''v1'', Some ''qa'']])]\<rparr>)"
proof -
  let ?s = "start 9 [(''d1'', ''m1'', [''v1'']), (''d2'', ''m2'', [''v1'', ''qa''])]"
  let ?ds = "[ImageDetail [Some ''v1''], ImageDetail [Some ''v1'', Some ''qa'']]"
  have d: "DescribeImages (ecr_New mem_tagger ''r1'')
             (DescribeImagesInput [ImageIdentifier None (Some ''v1'')]
                (Some ''123'') (Some ''app''))
             (remote ?s)
           = (Inr ?ds, (8, [(''d1'', ''m1'', [''v1'']), (''d2'', ''m2'', [''v1'', ''qa''])]))"
    by (simp add: mem_run)
  have l: "2 \<le> length ?ds" by simp
  from Get_several_images [OF mem_parse_app d l] show ?thesis by (simp add: start_def)
qed

subsection \<open>What \<open>Add\<close> and \<open>Remove\<close> do to each tag\<close>

text \<open>
  C4. For a reference the parser accepts, every run of \<open>Add\<close> is a run of the remote: its events
  replay on the client of the parsed region, with the recorded answers, from the registry it
  started on to the registry it ends on. Those events are:
  \<^item> when the run returns \<^verbatim>\<open>nil\<close>, one completed iteration per tag, in input order and once
    per occurrence: the printed line, the lookup of \<open>version\<close> and, \<open>images\<close> being what the
    remote answered, one successful put of that tag on the manifest of each image, in order;
  \<^item> otherwise the completed iterations of the tags before some index \<open>k\<close>, then the
    iteration of the tag at \<open>k\<close> up to its failing call and the increment, the error being
    the one of that call.

  An iteration whose lookup answers no image does nothing more: the loop goes on with the
  remaining tags from the state the lookup left, with no error and no counter. No run of
  \<open>Add\<close> issues a delete, so \<open>Add\<close> never takes the version tag off.
\<close>

theorem Add_attaches_tags_in_order:
  assumes p: "NameAccountRegionFromARN t ecrARN = Inr (repoName, accountID, region)"
  shows "(Add t ecrARN version tags s = (res, s') \<longrightarrow>
            replay (ecr_New t region) (events_since s s') (remote s) = Some (remote s')
          \<and> (res = None
              \<and> (\<exists>imgss. length imgss = length tags
                   \<and> trace s' = trace s
                       @ concat (map2 (Add_tag_events repoName accountID version tags) tags imgss))
            \<or> (\<exists>k imgss fp. k < length tags \<and> length imgss = k \<and> in_range fp
                   \<and> res = Some (Add_failed_error (tags ! k) fp)
                   \<and> trace s' = trace s
                       @ concat (map2 (Add_tag_events repoName accountID version tags)
                                   (take k tags) imgss)
                       @ Add_failed_events repoName accountID version tags (tags ! k) fp)))
       \<and> (BatchGetImage (ecr_New t region) (lookup_by_tag repoName accountID version) (remote s)
            = (Inr [], w) \<longrightarrow>
          Add_tags (ecr_New t region) repoName accountID version tags (tag # rest) s
            = Add_tags (ecr_New t region) repoName accountID version tags rest
                (s\<lparr>remote := w,
                   trace := trace s @ [EvPrintf (tags_line tags),
                     EvBatchGetImage (lookup_by_tag repoName accountID version) (Inr [])]\<rparr>))
       \<and> filter deleting (events_since s (snd (Add t ecrARN version tags s))) = []"
proof (intro conjI impI)
  assume run: "Add t ecrARN version tags s = (res, s')"
  from Add_replay [OF p run]
  show "replay (ecr_New t region) (events_since s s') (remote s) = Some (remote s')" .
  from Add_run [OF p run]
  show "res = None
              \<and> (\<exists>imgss. length imgss = length tags
                   \<and> trace s' = trace s
                       @ concat (map2 (Add_tag_events repoName accountID version tags) tags imgss))
            \<or> (\<exists>k imgss fp. k < length tags \<and> length imgss = k \<and> in_range fp
                   \<and> res = Some (Add_failed_error (tags ! k) fp)
                   \<and> trace s' = trace s
                       @ concat (map2 (Add_tag_events repoName accountID version tags)
                                   (take k tags) imgss)
                       @ Add_failed_events repoName accountID version tags (tags ! k) fp)" .
next
  assume "BatchGetImage (ecr_New t region) (lookup_by_tag repoName accountID version) (remote s)
            = (Inr [], w)"
  then show "Add_tags (ecr_New t region) repoName accountID version tags (tag # rest) s
            = Add_tags (ecr_New t region) repoName accountID version tags rest
                (s\<lparr>remote := w,
                   trace := trace s @ [EvPrintf (tags_line tags),
                     EvBatchGetImage (lookup_by_tag repoName accountID version) (Inr [])]\<rparr>)"
    by (simp add: lookup_by_tag_def aws_String_def call_BatchGetImage_def Printf_tags_def emit_def)
next
  obtain res s' where run: "Add t ecrARN version tags s = (res, s')"
    by (cases "Add t ecrARN version tags s")
  from Add_run [OF p run]
  have "filter deleting (events_since s s') = []"
    by (auto simp: events_since_def filter_concat_map2 quiet_Add_tag_events one_failure_Add)
  with run show "filter deleting (events_since s (snd (Add t ecrARN version tags s))) = []"
    by simp
qed

theorem Add_attaches_tags_in_order_witness:
  "NameAccountRegionFromARN mem_tagger ''ecr:app'' = Inr (''app'', ''123'', ''r1'')
   \<and> fst (Add mem_tagger ''ecr:app'' ''v1'' [''dev'', ''qa''] (start 9 [(''d1'', ''m1'', [''v1''])]))
       = None
   \<and> remote (snd (Add mem_tagger ''ecr:app'' ''v1'' [''dev'', ''qa'']
                     (start 9 [(''d1'', ''m1'', [''v1''])])))
       = (5, [(''d1'', ''m1'', [''v1'', ''dev'', ''qa''])])
   \<and> replay (ecr_New mem_tagger ''r1'')
        (events_since (start 9 [(''d1'', ''m1'', [''v1''])])
           (snd (Add mem_tagger ''ecr:app'' ''v1'' [''dev'', ''qa'']
                   (start 9 [(''d1'', ''m1'', [''v1''])]))))
        (remote (start 9 [(''d1'', ''m1'', [''v1''])]))
       = Some (5, [(''d1'', ''m1'', [''v1'', ''dev'', ''qa''])])
   \<and> (\<exists>imgss. length imgss = length [''dev'', ''qa'']
        \<and> trace (snd (Add mem_tagger ''ecr:app'' ''v1'' [''dev'', ''qa'']
                        (start 9 [(''d1'', ''m1'', [''v1''])])))
            = trace (start 9 [(''d1'', ''m1'', [''v1''])])
              @ concat (map2 (Add_tag_events ''app'' ''123'' ''v1'' [''dev'', ''qa''])
                          [''dev'', ''qa''] imgss))
   \<and> BatchGetImage (ecr_New mem_tagger ''r1'') (lookup_by_tag ''app'' ''123'' ''v2'')
        (remote (start 9 [(''d1'', ''m1'', [''v1''])]))
       = (Inr [], (8, [(''d1'', ''m1'', [''v1''])]))
   \<and> Add_tags (ecr_New mem_tagger ''r1'') ''app'' ''123'' ''v2'' [''dev'', ''qa''] (''dev'' # [''qa''])
        (start 9 [(''d1'', ''m1'', [''v1''])])
       = Add_tags (ecr_New mem_tagger ''r1'') ''app'' ''123'' ''v2'' [''dev'', ''qa''] [''qa'']
           ((start 9 [(''d1'', ''m1'', [''v1''])])
              \<lparr>remote := (8, [(''d1'', ''m1'', [''v1''])]),
               trace := trace (start 9 [(''d1'', ''m1'', [''v1''])])
                 @ [EvPrintf (tags_line [''dev'', ''qa'']),
                    EvBatchGetImage (lookup_by_tag ''app'' ''123'' ''v2'') (Inr [])]\<rparr>)
   \<and> filter deleting (events_since (start 9 [(''d1'', ''m1'', [''v1''])])
        (snd (Add mem_tagger ''ecr:app'' ''v1'' [''dev'', ''qa'']
                (start 9 [(''d1'', ''m1'', [''v1''])])))) = []"
proof -
  let ?s = "start 9 [(''d1'', ''m1'', [''v1''])]"
  let ?run = "Add mem_tagger ''ecr:app'' ''v1'' [''dev'', ''qa''] ?s"
  have ok: "fst ?run = None" by (simp add: run_simps)
  have reg: "remote (snd ?run) = (5, [(''d1'', ''m1'', [''v1'', ''dev'', ''qa''])])"
    by (simp add: run_simps)
  from ok have run: "?run = (None, snd ?run)" by (simp add: prod_eq_iff)
  have g: "BatchGetImage (ecr_New mem_tagger ''r1'') (lookup_by_tag ''app'' ''123'' ''v2'')
             (remote ?s) = (Inr [], (8, [(''d1'', ''m1'', [''v1''])]))"
    by (simp add: mem_run lookup_by_tag_def)
  note a = Add_attaches_tags_in_order [OF mem_parse_app, of "''v1''" "[''dev'', ''qa'']" ?s]
  note b = Add_attaches_tags_in_order [OF mem_parse_app, of "''v2''" "[''dev'', ''qa'']" ?s]
  from a [THEN conjunct1, THEN mp, OF run] a [THEN conjunct2, THEN conjunct2]
    b [THEN conjunct2, THEN conjunct1, THEN mp, OF g, of "''dev''" "[''qa'']"]
    mem_parse_app ok g reg
  show ?thesis by simp
qed

text \<open>
  C5. For a reference the parser accepts, every run of \<open>Remove\<close> is a run of the remote: its
  events replay on the client of the parsed region, with the recorded answers, from the
  registry it started on to the registry it ends on. Those events are:
  \<^item> when the run returns \<^verbatim>\<open>nil\<close>, one completed iteration per tag, in input order: the
    lookup of the images that carry the tag and, \<open>images\<close> being what the remote answered,
    for each image, in order, one successful delete whose only identifier is that tag with
    the digest of that image;
  \<^item> otherwise the completed iterations of the tags before some index \<open>k\<close>, then the
    iteration of the tag at \<open>k\<close> up to its failing call and the increment, the error being
    the one of that call.
\<close>

theorem Remove_deletes_each_binding:
  assumes p: "NameAccountRegionFromARN t ecrARN = Inr (repoName, accountID, region)"
    and run: "Remove t ecrARN tags s = (res, s')"
  shows "replay (ecr_New t region) (events_since s s') (remote s) = Some (remote s')
       \<and> (res = None
           \<and> (\<exists>imgss. length imgss = length tags
                \<and> trace s' = trace s
                    @ concat (map2 (Remove_tag_events repoName accountID) tags imgss))
         \<or> (\<exists>k imgss fp. k < length tags \<and> length imgss = k \<and> in_range fp
                \<and> res = Some (Remove_failed_error (tags ! k) fp)
                \<and> trace s' = trace s
                    @ concat (map2 (Remove_tag_events repoName accountID) (take k tags) imgss)
                    @ Remove_failed_events repoName accountID (tags ! k) fp))"
  using Remove_replay [OF p run] Remove_run [OF p run] by (rule conjI)

theorem Remove_deletes_each_binding_witness:
  "NameAccountRegionFromARN mem_tagger ''ecr:app'' = Inr (''app'', ''123'', ''r1'')
   \<and> fst (Remove mem_tagger ''ecr:app'' [''a'', ''b'']
             (start 9 [(''d1'', ''m1'', [''a'']), (''d2'', ''m2'', [''a'', ''b''])])) = None
   \<and> remote (snd (Remove mem_tagger ''ecr:app'' [''a'', ''b'']
             (start 9 [(''d1'', ''m1'', [''a'']), (''d2'', ''m2'', [''a'', ''b''])])))
       = (4, [(''d1'', ''m1'', []), (''d2'', ''m2'', [])])
   \<and> replay (ecr_New mem_tagger ''r1'')
        (events_since (start 9 [(''d1'', ''m1'', [''a'']), (''d2'', ''m2'', [''a'', ''b''])])
           (snd (Remove mem_tagger ''ecr:app'' [''a'', ''b'']
                   (start 9 [(''d1'', ''m1'', [''a'']), (''d2'', ''m2'', [''a'', ''b''])]))))
        (remote (start 9 [(''d1'', ''m1'', [''a'']), (''d2'', ''m2'', [''a'', ''b''])]))
       = Some (4, [(''d1'', ''m1'', []), (''d2'', ''m2'', [])])
   \<and> (\<exists>imgss. length imgss = length [''a'', ''b'']
        \<and> trace (snd (Remove mem_tagger ''ecr:app'' [''a'', ''b'']
                        (start 9 [(''d1'', ''m1'', [''a'']), (''d2'', ''m2'', [''a'', ''b''])])))
            = trace (start 9 [(''d1'', ''m1'', [''a'']), (''d2'', ''m2'', [''a'', ''b''])])
              @ concat (map2 (Remove_tag_events ''app'' ''123'') [''a'', ''b''] imgss))"
proof -
  let ?s = "start 9 [(''d1'', ''m1'', [''a'']), (''d2'', ''m2'', [''a'', ''b''])]"
  let ?run = "Remove mem_tagger ''ecr:app'' [''a'', ''b''] ?s"
  have ok: "fst ?run = None" by (simp add: run_simps)
  have reg: "remote (snd ?run) = (4, [(''d1'', ''m1'', []), (''d2'', ''m2'', [])])"
    by (simp add: run_simps)
  from ok have run: "?run = (None, snd ?run)" by (simp add: prod_eq_iff)
  from Remove_deletes_each_binding [OF mem_parse_app run] mem_parse_app ok reg
  show ?thesis by simp
qed

subsection \<open>Remote failures\<close>




text \<open>
  C7. For a reference the parser accepts, every run of \<open>Add\<close>, \<open>Remove\<close> or \<open>Get\<close> is a run of the
  remote (its events replay on the client, with the recorded answers). In a run in which a
  remote call fails, the failed call is the last call, exactly one counter is incremented,
  right after it, and the error returned is the remote's error wrapped. With \<open>k\<close> the index
  of the iteration that fails (the run has issued \<open>k + 1\<close> lookups):
  \<^item> a failed lookup of \<open>Add\<close> or \<open>Remove\<close> increments \<open>ecr.batchget.<repoName>.failure\<close> and
    the message names the tag at \<open>k\<close>;
  \<^item> a failed put increments \<open>ecr.putimage.<repoName>.failure\<close> and the message names the tag
    at \<open>k\<close> and the manifest of the request; a failed delete increments
    \<open>ecr.batchdelete.<repoName>.failure\<close> and the message names the tag at \<open>k\<close> and the digest
    of the request;
  \<^item> a failed lookup of \<open>Get\<close> increments \<open>ecr.descimg.<repoName>.failure\<close> and the message
    names the version.
\<close>

theorem remote_failure_is_counted_and_wrapped:
  assumes p: "NameAccountRegionFromARN t ecrARN = Inr (repoName, accountID, region)"
  shows
   "(Add t ecrARN version tags s = (res, s') \<longrightarrow>
      replay (ecr_New t region) (events_since s s') (remote s) = Some (remote s')
    \<and> (filter failed (events_since s s') \<noteq> [] \<longrightarrow>
      (\<exists>pre k err. k < length tags \<and> length (lookups (events_since s s')) = Suc k
         \<and> filter failed pre = [] \<and> filter counted pre = [] \<and>
         (trace s' = trace s @ pre
             @ [EvBatchGetImage (lookup_by_tag repoName accountID version) (Inl err),
                EvIncCount (''ecr.batchget.'' @ repoName @ ''.failure'')]
          \<and> res = Some (Wrap err (''failed to get images of tag '' @ tags ! k))
        \<or> (\<exists>img. trace s' = trace s @ pre
             @ [EvPutImage (put_tag repoName accountID (tags ! k) img) (Some err),
                EvIncCount (''ecr.putimage.'' @ repoName @ ''.failure'')]
          \<and> res = Some (Wrap err (''failed to add tag '' @ tags ! k @ '' to image manifest ''
                                    @ aws_StringValue (ImageManifest img))))))))
  \<and> (Remove t ecrARN tags s = (res, s') \<longrightarrow>
      replay (ecr_New t region) (events_since s s') (remote s) = Some (remote s')
    \<and> (filter failed (events_since s s') \<noteq> [] \<longrightarrow>
      (\<exists>pre k err. k < length tags \<and> length (lookups (events_since s s')) = Suc k
         \<and> filter failed pre = [] \<and> filter counted pre = [] \<and>
         (trace s' = trace s @ pre
             @ [EvBatchGetImage (lookup_by_tag repoName accountID (tags ! k)) (Inl err),
                EvIncCount (''ecr.batchget.'' @ repoName @ ''.failure'')]
          \<and> res = Some (Wrap err (''failed to get images of tag '' @ tags ! k))
        \<or> (\<exists>img. trace s' = trace s @ pre
             @ [EvBatchDeleteImage (delete_tag_digest repoName accountID (tags ! k) img) (Some err),
                EvIncCount (''ecr.batchdelete.'' @ repoName @ ''.failure'')]
          \<and> res = Some (Wrap err (''failed to perform batch delete image by tag '' @ tags ! k
                 @ '' and digest '' @ aws_StringValue (ImageDigest (ImageId img)))))))))
  \<and> (Get t ecrARN version s = (out, sg) \<longrightarrow>
      replay (ecr_New t region) (events_since s sg) (remote s) = Some (remote sg)
    \<and> (filter failed (events_since s sg) \<noteq> [] \<longrightarrow>
      (\<exists>err. trace sg = trace s
             @ [EvDescribeImages (DescribeImagesInput [ImageIdentifier None (Some version)]
                                    (Some accountID) (Some repoName)) (Inl err),
                EvIncCount (''ecr.descimg.'' @ repoName @ ''.failure'')]
          \<and> out = Returned (Inl (Wrap err (''failed to get images of tag '' @ version))))))"
proof (intro conjI impI)
  assume run: "Add t ecrARN version tags s = (res, s')"
  from Add_replay [OF p run]
  show "replay (ecr_New t region) (events_since s s') (remote s) = Some (remote s')" .
next
  assume run: "Remove t ecrARN tags s = (res, s')"
  from Remove_replay [OF p run]
  show "replay (ecr_New t region) (events_since s s') (remote s) = Some (remote s')" .
next
  assume run: "Get t ecrARN version s = (out, sg)"
  from Get_replay [OF p run]
  show "replay (ecr_New t region) (events_since s sg) (remote s) = Some (remote sg)" .
next
  assume run: "Add t ecrARN version tags s = (res, s')"
    and f: "filter failed (events_since s s') \<noteq> []"
  from Add_run [OF p run] f obtain k imgss fp where k: "k < length tags"
    and l: "length imgss = k" and fp: "in_range fp"
    and res: "res = Some (Add_failed_error (tags ! k) fp)"
    and t: "trace s' = trace s
              @ concat (map2 (Add_tag_events repoName accountID version tags) (take k tags) imgss)
              @ Add_failed_events repoName accountID version tags (tags ! k) fp"
    by (auto simp: events_since_def quiet_iterations)
  let ?done = "concat (map2 (Add_tag_events repoName accountID version tags) (take k tags) imgss)"
  from t have "events_since s s'
      = ?done @ Add_failed_events repoName accountID version tags (tags ! k) fp"
    by (simp add: events_since_def)
  with count_lookups_Add_run [OF l k]
  have n: "length (lookups (events_since s s')) = Suc k" by simp
  show "\<exists>pre k err. k < length tags \<and> length (lookups (events_since s s')) = Suc k
         \<and> filter failed pre = [] \<and> filter counted pre = [] \<and>
         (trace s' = trace s @ pre
             @ [EvBatchGetImage (lookup_by_tag repoName accountID version) (Inl err),
                EvIncCount (''ecr.batchget.'' @ repoName @ ''.failure'')]
          \<and> res = Some (Wrap err (''failed to get images of tag '' @ tags ! k))
        \<or> (\<exists>img. trace s' = trace s @ pre
             @ [EvPutImage (put_tag repoName accountID (tags ! k) img) (Some err),
                EvIncCount (''ecr.putimage.'' @ repoName @ ''.failure'')]
          \<and> res = Some (Wrap err (''failed to add tag '' @ tags ! k @ '' to image manifest ''
                                    @ aws_StringValue (ImageManifest img)))))"
  proof (cases fp)
    case (LookupFailed err)
    show ?thesis
      apply (rule exI [of _ "?done @ [EvPrintf (tags_line tags)]"])
      apply (rule exI [of _ k], rule exI [of _ err])
      using k n res t LookupFailed by (simp add: quiet_iterations)
  next
    case (ImageFailed imgs j err)
    show ?thesis
      apply (rule exI [of _ "?done @ EvPrintf (tags_line tags)
               # EvBatchGetImage (lookup_by_tag repoName accountID version) (Inr imgs)
               # puts repoName accountID (tags ! k) (take j imgs)"])
      apply (rule exI [of _ k], rule exI [of _ err])
      apply (intro conjI disjI2 exI [of _ "imgs ! j"])
      using k n res t ImageFailed by (simp_all add: quiet_iterations quiet_puts)
  qed
next
  assume run: "Remove t ecrARN tags s = (res, s')"
    and f: "filter failed (events_since s s') \<noteq> []"
  from Remove_run [OF p run] f obtain k imgss fp where k: "k < length tags"
    and l: "length imgss = k" and fp: "in_range fp"
    and res: "res = Some (Remove_failed_error (tags ! k) fp)"
    and t: "trace s' = trace s
              @ concat (map2 (Remove_tag_events repoName accountID) (take k tags) imgss)
              @ Remove_failed_events repoName accountID (tags ! k) fp"
    by (auto simp: events_since_def quiet_iterations)
  let ?done = "concat (map2 (Remove_tag_events repoName accountID) (take k tags) imgss)"
  from t have "events_since s s'
      = ?done @ Remove_failed_events repoName accountID (tags ! k) fp"
    by (simp add: events_since_def)
  with count_lookups_Remove_run [OF l k]
  have n: "length (lookups (events_since s s')) = Suc k" by simp
  show "\<exists>pre k err. k < length tags \<and> length (lookups (events_since s s')) = Suc k
         \<and> filter failed pre = [] \<and> filter counted pre = [] \<and>
         (trace s' = trace s @ pre
             @ [EvBatchGetImage (lookup_by_tag repoName accountID (tags ! k)) (Inl err),
                EvIncCount (''ecr.batchget.'' @ repoName @ ''.failure'')]
          \<and> res = Some (Wrap err (''failed to get images of tag '' @ tags ! k))
        \<or> (\<exists>img. trace s' = trace s @ pre
             @ [EvBatchDeleteImage (delete_tag_digest repoName accountID (tags ! k) img) (Some err),
                EvIncCount (''ecr.batchdelete.'' @ repoName @ ''.failure'')]
          \<and> res = Some (Wrap err (''failed to perform batch delete image by tag '' @ tags ! k
                 @ '' and digest '' @ aws_StringValue (ImageDigest (ImageId img))))))"
  proof (cases fp)
    case (LookupFailed err)
    show ?thesis
      apply (rule exI [of _ "?done"])
      apply (rule exI [of _ k], rule exI [of _ err])
      using k n res t LookupFailed by (simp add: quiet_iterations)
  next
    case (ImageFailed imgs j err)
    show ?thesis
      apply (rule exI [of _ "?done
               @ EvBatchGetImage (lookup_by_tag repoName accountID (tags ! k)) (Inr imgs)
               # deletes repoName accountID (tags ! k) (take j imgs)"])
      apply (rule exI [of _ k], rule exI [of _ err])
      apply (intro conjI disjI2 exI [of _ "imgs ! j"])
      using k n res t ImageFailed by (simp_all add: quiet_iterations quiet_deletes)
  qed
next
  assume run: "Get t ecrARN version s = (out, sg)"
    and f: "filter failed (events_since s sg) \<noteq> []"
  from Get_run [OF p run] f
  show "\<exists>err. trace sg = trace s
             @ [EvDescribeImages (DescribeImagesInput [ImageIdentifier None (Some version)]
                                    (Some accountID) (Some repoName)) (Inl err),
                EvIncCount (''ecr.descimg.'' @ repoName @ ''.failure'')]
          \<and> out = Returned (Inl (Wrap err (''failed to get images of tag '' @ version)))"
    by (auto simp: events_since_def)
qed

theorem remote_failure_is_counted_and_wrapped_witness:
  "fst (Add mem_tagger ''ecr:app'' ''v1'' [''dev'', ''qa''] (start 2 [(''d1'', ''m1'', [''v1''])]))
     = Some (Wrap (New ''RequestError: send request failed'') ''failed to get images of tag qa'')
  \<and> replay (ecr_New mem_tagger ''r1'')
       (events_since (start 2 [(''d1'', ''m1'', [''v1''])])
          (snd (Add mem_tagger ''ecr:app'' ''v1'' [''dev'', ''qa''] (start 2 [(''d1'', ''m1'', [''v1''])]))))
       (remote (start 2 [(''d1'', ''m1'', [''v1''])]))
     = Some (remote (snd (Add mem_tagger ''ecr:app'' ''v1'' [''dev'', ''qa'']
                            (start 2 [(''d1'', ''m1'', [''v1''])]))))
  \<and> (\<exists>pre k err. k < length [''dev'', ''qa'']
         \<and> length (lookups (events_since (start 2 [(''d1'', ''m1'', [''v1''])])
              (snd (Add mem_tagger ''ecr:app'' ''v1'' [''dev'', ''qa'']
                      (start 2 [(''d1'', ''m1'', [''v1''])]))))) = Suc k
         \<and> filter failed pre = [] \<and> filter counted pre = [] \<and>
         (trace (snd (Add mem_tagger ''ecr:app'' ''v1'' [''dev'', ''qa'']
                        (start 2 [(''d1'', ''m1'', [''v1''])])))
            = trace (start 2 [(''d1'', ''m1'', [''v1''])]) @ pre
             @ [EvBatchGetImage (lookup_by_tag ''app'' ''123'' ''v1'') (Inl err),
                EvIncCount (''ecr.batchget.'' @ ''app'' @ ''.failure'')]
          \<and> fst (Add mem_tagger ''ecr:app'' ''v1'' [''dev'', ''qa'']
                        (start 2 [(''d1'', ''m1'', [''v1''])]))
              = Some (Wrap err (''failed to get images of tag '' @ [''dev'', ''qa''] ! k))
        \<or> (\<exists>img. trace (snd (Add mem_tagger ''ecr:app'' ''v1'' [''dev'', ''qa'']
                        (start 2 [(''d1'', ''m1'', [''v1''])])))
            = trace (start 2 [(''d1'', ''m1'', [''v1''])]) @ pre
             @ [EvPutImage (put_tag ''app'' ''123'' ([''dev'', ''qa''] ! k) img) (Some err),
                EvIncCount (''ecr.putimage.'' @ ''app'' @ ''.failure'')]
          \<and> fst (Add mem_tagger ''ecr:app'' ''v1'' [''dev'', ''qa'']
                        (start 2 [(''d1'', ''m1'', [''v1''])]))
              = Some (Wrap err (''failed to add tag '' @ [''dev'', ''qa''] ! k
                        @ '' to image manifest '' @ aws_StringValue (ImageManifest img))))))
  \<and> fst (Remove mem_tagger ''ecr:app'' [''a'', ''b'']
           (start 3 [(''d1'', ''m1'', [''a'']), (''d2'', ''m2'', [''b''])]))
     = Some (Wrap (New ''RequestError: send request failed'')
               ''failed to perform batch delete image by tag b and digest d2'')
  \<and> replay (ecr_New mem_tagger ''r1'')
       (events_since (start 3 [(''d1'', ''m1'', [''a'']), (''d2'', ''m2'', [''b''])])
          (snd (Remove mem_tagger ''ecr:app'' [''a'', ''b'']
                  (start 3 [(''d1'', ''m1'', [''a'']), (''d2'', ''m2'', [''b''])]))))
       (remote (start 3 [(''d1'', ''m1'', [''a'']), (''d2'', ''m2'', [''b''])]))
     = Some (remote (snd (Remove mem_tagger ''ecr:app'' [''a'', ''b'']
                  (start 3 [(''d1'', ''m1'', [''a'']), (''d2'', ''m2'', [''b''])]))))
  \<and> (\<exists>pre k err. k < length [''a'', ''b'']
         \<and> length (lookups (events_since (start 3 [(''d1'', ''m1'', [''a'']), (''d2'', ''m2'', [''b''])])
              (snd (Remove mem_tagger ''ecr:app'' [''a'', ''b'']
                      (start 3 [(''d1'', ''m1'', [''a'']), (''d2'', ''m2'', [''b''])]))))) = Suc k
         \<and> filter failed pre = [] \<and> filter counted pre = [] \<and>
         (trace (snd (Remove mem_tagger ''ecr:app'' [''a'', ''b'']
                        (start 3 [(''d1'', ''m1'', [''a'']), (''d2'', ''m2'', [''b''])])))
            = trace (start 3 [(''d1'', ''m1'', [''a'']), (''d2'', ''m2'', [''b''])]) @ pre
             @ [EvBatchGetImage (lookup_by_tag ''app'' ''123'' ([''a'', ''b''] ! k)) (Inl err),
                EvIncCount (''ecr.batchget.'' @ ''app'' @ ''.failure'')]
          \<and> fst (Remove mem_tagger ''ecr:app'' [''a'', ''b'']
                        (start 3 [(''d1'', ''m1'', [''a'']), (''d2'', ''m2'', [''b''])]))
              = Some (Wrap err (''failed to get images of tag '' @ [''a'', ''b''] ! k))
        \<or> (\<exists>img. trace (snd (Remove mem_tagger ''ecr:app'' [''a'', ''b'']
                        (start 3 [(''d1'', ''m1'', [''a'']), (''d2'', ''m2'', [''b''])])))
            = trace (start 3 [(''d1'', ''m1'', [''a'']), (''d2'', ''m2'', [''b''])]) @ pre
             @ [EvBatchDeleteImage (delete_tag_digest ''app'' ''123'' ([''a'', ''b''] ! k) img) (Some err),
                EvIncCount (''ecr.batchdelete.'' @ ''app'' @ ''.failure'')]
          \<and> fst (Remove mem_tagger ''ecr:app'' [''a'', ''b'']
                        (start 3 [(''d1'', ''m1'', [''a'']), (''d2'', ''m2'', [''b''])]))
              = Some (Wrap err (''failed to perform batch delete image by tag '' @ [''a'', ''b''] ! k
                 @ '' and digest '' @ aws_StringValue (ImageDigest (ImageId img)))))))
  \<and> replay (ecr_New mem_tagger ''r1'')
       (events_since (start 0 [(''d1'', ''m1'', [''v1''])])
          (snd (Get mem_tagger ''ecr:app'' ''v1'' (start 0 [(''d1'', ''m1'', [''v1''])]))))
       (remote (start 0 [(''d1'', ''m1'', [''v1''])]))
     = Some (remote (snd (Get mem_tagger ''ecr:app'' ''v1'' (start 0 [(''d1'', ''m1'', [''v1''])]))))
  \<and> (\<exists>err. trace (snd (Get mem_tagger ''ecr:app'' ''v1'' (start 0 [(''d1'', ''m1'', [''v1''])])))
          = trace (start 0 [(''d1'', ''m1'', [''v1''])])
             @ [EvDescribeImages (DescribeImagesInput [ImageIdentifier None (Some ''v1'')]
                                    (Some ''123'') (Some ''app'')) (Inl err),
                EvIncCount (''ecr.descimg.'' @ ''app'' @ ''.failure'')]
          \<and> fst (Get mem_tagger ''ecr:app'' ''v1'' (start 0 [(''d1'', ''m1'', [''v1''])]))
              = Returned (Inl (Wrap err (''failed to get images of tag '' @ ''v1''))))"
proof -
  let ?s = "start 2 [(''d1'', ''m1'', [''v1''])]"
  let ?add = "Add mem_tagger ''ecr:app'' ''v1'' [''dev'', ''qa''] ?s"
  let ?r = "start 3 [(''d1'', ''m1'', [''a'']), (''d2'', ''m2'', [''b''])]"
  let ?rem = "Remove mem_tagger ''ecr:app'' [''a'', ''b''] ?r"
  let ?g = "start 0 [(''d1'', ''m1'', [''v1''])]"
  let ?get = "Get mem_tagger ''ecr:app'' ''v1'' ?g"
  have ea: "fst ?add = Some (Wrap (New ''RequestError: send request failed'')
                               ''failed to get images of tag qa'')"
    by (simp add: run_simps)
  have er: "fst ?rem = Some (Wrap (New ''RequestError: send request failed'')
               ''failed to perform batch delete image by tag b and digest d2'')"
    by (simp add: run_simps)
  have fa: "filter failed (events_since ?s (snd ?add)) \<noteq> []" by (simp add: run_simps)
  have fr: "filter failed (events_since ?r (snd ?rem)) \<noteq> []" by (simp add: run_simps)
  have fg: "filter failed (events_since ?g (snd ?get)) \<noteq> []" by (simp add: run_simps)
  have a: "?add = (fst ?add, snd ?add)" and r: "?rem = (fst ?rem, snd ?rem)"
    and g: "?get = (fst ?get, snd ?get)" by simp_all
  note T = remote_failure_is_counted_and_wrapped [OF mem_parse_app]
  note A = T [THEN conjunct1, THEN mp, OF a]
  note R = T [THEN conjunct2, THEN conjunct1, THEN mp, OF r]
  note G = T [THEN conjunct2, THEN conjunct2, THEN mp, OF g]
  show ?thesis
    apply (intro conjI)
           apply (rule ea)
          apply (rule A [THEN conjunct1])
         apply (rule A [THEN conjunct2, THEN mp, OF fa])
        apply (rule er)
       apply (rule R [THEN conjunct1])
      apply (rule R [THEN conjunct2, THEN mp, OF fr])
     apply (rule G [THEN conjunct1])
    apply (rule G [THEN conjunct2, THEN mp, OF fg])
    done
qed

text \<open>
  C8. In every run of \<open>Add\<close>, \<open>Remove\<close> and \<open>Get\<close> the increments of counters are as many as the
  failed remote calls. When the parser rejects the reference no counter is incremented, and
  when \<open>Get\<close> returns the error for more than one image no counter is incremented.
\<close>

theorem counters_only_on_remote_failures:
  "length (filter counted (events_since s (snd (Add t ecrARN version tags s))))
     = length (filter failed (events_since s (snd (Add t ecrARN version tags s))))
   \<and> length (filter counted (events_since s (snd (Remove t ecrARN tags s))))
     = length (filter failed (events_since s (snd (Remove t ecrARN tags s))))
   \<and> length (filter counted (events_since s (snd (Get t ecrARN version s))))
     = length (filter failed (events_since s (snd (Get t ecrARN version s))))
   \<and> (NameAccountRegionFromARN t ecrARN = Inl err \<longrightarrow>
        filter counted (events_since s (snd (Add t ecrARN version tags s))) = []
      \<and> filter counted (events_since s (snd (Remove t ecrARN tags s))) = []
      \<and> filter counted (events_since s (snd (Get t ecrARN version s))) = [])
   \<and> (fst (Get t ecrARN version s)
         = Returned (Inl (New ''More than one image with version tag was found ... bad state!''))
       \<longrightarrow> filter counted (events_since s (snd (Get t ecrARN version s))) = [])"
  using Add_counts [of s t ecrARN version tags] Remove_counts [of s t ecrARN tags]
    Get_counts [of s t ecrARN version] Get_violation_quiet [of t ecrARN version s]
  by (simp add: Add_def Remove_def Get_def events_since_same)

theorem counters_only_on_remote_failures_witness:
  "NameAccountRegionFromARN mem_tagger ''app'' = Inl (New ''not a valid repository ARN'')
   \<and> filter counted (events_since (start 9 [(''d1'', ''m1'', [''v1''])])
        (snd (Add mem_tagger ''app'' ''v1'' [''dev''] (start 9 [(''d1'', ''m1'', [''v1''])])))) = []
   \<and> filter counted (events_since (start 9 [(''d1'', ''m1'', [''v1''])])
        (snd (Remove mem_tagger ''app'' [''dev''] (start 9 [(''d1'', ''m1'', [''v1''])])))) = []
   \<and> filter counted (events_since (start 9 [(''d1'', ''m1'', [''v1''])])
        (snd (Get mem_tagger ''app'' ''v1'' (start 9 [(''d1'', ''m1'', [''v1''])])))) = []
   \<and> fst (Get mem_tagger ''ecr:app'' ''v1''
            (start 9 [(''d1'', ''m1'', [''v1'']), (''d2'', ''m2'', [''v1''])]))
       = Returned (Inl (New ''More than one image with version tag was found ... bad state!''))
   \<and> filter counted (events_since (start 9 [(''d1'', ''m1'', [''v1'']), (''d2'', ''m2'', [''v1''])])
        (snd (Get mem_tagger ''ecr:app'' ''v1''
                (start 9 [(''d1'', ''m1'', [''v1'']), (''d2'', ''m2'', [''v1''])])))) = []"
proof -
  let ?s = "start 9 [(''d1'', ''m1'', [''v1''])]"
  let ?v = "start 9 [(''d1'', ''m1'', [''v1'']), (''d2'', ''m2'', [''v1''])]"
  have p: "NameAccountRegionFromARN mem_tagger ''app'' = Inl (New ''not a valid repository ARN'')"
    by (simp add: mem_tagger_def mem_parse_def)
  have v: "fst (Get mem_tagger ''ecr:app'' ''v1'' ?v)
       = Returned (Inl (New ''More than one image with version tag was found ... bad state!''))"
    by (simp add: run_simps)
  note A = counters_only_on_remote_failures [of ?s mem_tagger "''app''" "''v1''" "[''dev'']"
      "New ''not a valid repository ARN''"]
  note B = counters_only_on_remote_failures [of ?v mem_tagger "''ecr:app''" "''v1''"]
  from A [THEN conjunct2, THEN conjunct2, THEN conjunct2, THEN conjunct1, THEN mp, OF p]
    B [THEN conjunct2, THEN conjunct2, THEN conjunct2, THEN conjunct2, THEN mp, OF v] p v
  show ?thesis by simp
qed

subsection \<open>The lookups of \<open>Add\<close>\<close>



end
